theory Spec2Isabelle
  imports Main "HOL-Library.Sublist" "HOL-Library.Word"
begin

section \<open>Data model\<close>

text \<open>
  The client-side authentication provider (\<^verbatim>\<open>AuthProvider\<close>) and the server-side client
  constructor (\<^verbatim>\<open>createServerSupabaseClient\<close>) are embedded below. A JavaScript \<^verbatim>\<open>Error\<close>
  (and any rejected value) is an \<open>error\<close> carrying its message.
\<close>

datatype error = Error string

text \<open>
  \<^verbatim>\<open>User\<close> of the identity SDK, with the three fields the provider reads: \<^verbatim>\<open>id\<close>,
  \<^verbatim>\<open>email\<close> and \<^verbatim>\<open>user_metadata?.user_name\<close>. Identifiers, emails and handles are only
  compared and tested for emptiness, so they are plain strings.
\<close>

record User =
  id_of_user :: string
  email_of_user :: "string option"
  user_name :: "string option"

record Session =
  access_token :: string
  user_of_session :: "User option"

text \<open>
  Modelled from the spec: the type \<^verbatim>\<open>Participant\<close> of \<^verbatim>\<open>@/lib/types\<close> is not among the
  sources. A participant has an identifier, an optional email, an optional handle, an
  optional link to the external identity and an administrative flag; the provider reads
  \<^verbatim>\<open>id\<close>, \<^verbatim>\<open>auth_user_id\<close> and \<^verbatim>\<open>is_admin\<close>. Nullable columns are options. The type
  \<^verbatim>\<open>UserStatus\<close> of the same module is a union of string literals; a status is a string.
\<close>

record Participant =
  id_of_participant :: string
  email :: "string option"
  github_username :: "string option"
  auth_user_id :: "string option"
  is_admin :: "bool option"

text \<open>A row of table \<^verbatim>\<open>admin_users\<close>.\<close>

record AdminUser =
  user_id :: string
  is_active :: bool

text \<open>
  JavaScript truthiness of a nullable string (\<^verbatim>\<open>if (authUser.email)\<close>,
  \<^verbatim>\<open>!participantData.auth_user_id\<close>): \<^verbatim>\<open>null\<close>, \<^verbatim>\<open>undefined\<close> and the empty string are
  falsy; \<open>string_of\<close> reads the string once it is known to be truthy. \<open>or_false\<close> is
  \<^verbatim>\<open>x || false\<close> on a nullable boolean.
\<close>

fun truthy :: "string option \<Rightarrow> bool" where
  "truthy None = False"
| "truthy (Some s) = (s \<noteq> [])"

fun string_of :: "string option \<Rightarrow> string" where
  "string_of None = []"
| "string_of (Some s) = s"

fun or_false :: "bool option \<Rightarrow> bool" where
  "or_false None = False"
| "or_false (Some b) = b"

section \<open>The remote service\<close>

text \<open>
  The hosted backend is opaque: every awaited call either resolves with a value, rejects
  (the \<^verbatim>\<open>await\<close> throws), or has not settled. A point query
  \<^verbatim>\<open>.from(t).select('*').eq(col, v).single()\<close> resolves with \<^verbatim>\<open>{ data }\<close>, where \<^verbatim>\<open>data\<close> is
  the row or \<^verbatim>\<open>null\<close>. A backend gives the response of each call the provider makes:
  the point query on \<^verbatim>\<open>participants\<close> by column and value, the query on
  \<^verbatim>\<open>admin_users\<close> for an active row of a user, the update of \<^verbatim>\<open>auth_user_id\<close> (user
  identifier, then participant identifier), and the session, user and sign-out calls of
  the identity SDK, whose results carry the session, the user with an error, and an error.
  The sign-out call reports a failure, a network failure included, in the error of its
  result: \<open>Resolves None\<close> is a successful sign-out, \<open>Resolves (Some e)\<close> a failed one.
\<close>

datatype 'a response = Resolves 'a | Rejects error | Never_settles

datatype column = Email | Github_username | Auth_user_id

record GetUserResult =
  data_user :: "User option"
  error_of_getUser :: "error option"

record backend =
  participants_single :: "column \<Rightarrow> string \<Rightarrow> Participant option response"
  admin_users_single :: "string \<Rightarrow> AdminUser option response"
  participants_update :: "string \<Rightarrow> string \<Rightarrow> unit response"
  auth_getSession :: "Session option response"
  auth_getUser :: "GetUserResult response"
  auth_signOut :: "error option response"

section \<open>Effects\<close>

text \<open>
  Everything the provider does besides computing a value is an \<open>action\<close>, recorded in
  program order: the state setters, the requests sent to the remote service, the timer
  calls and the console calls. \<open>Update_participants_auth_user_id uid pid\<close> is the request
  \<^verbatim>\<open>.update({ auth_user_id: uid }).eq('id', pid)\<close>.
\<close>

datatype action =
    SetUser "User option"
  | SetSession "Session option"
  | SetParticipant "Participant option"
  | SetIsLoading bool
  | SetIsActualAdmin bool
  | SetViewAsUser bool
  | SetUserStatus "string option"
  | Select_participants column string
  | Select_admin_users string
  | Update_participants_auth_user_id string string
  | Auth_getSession
  | Auth_getUser
  | Auth_signOut
  | SetTimeout nat
  | ClearTimeout
  | Subscribe
  | Unsubscribe
  | Console_error string error
  | Console_warn string
  | Console_log string "string option"

text \<open>
  An \<^verbatim>\<open>async\<close> function runs to one of three outcomes: it returns, it throws (its promise
  rejects), or it stays suspended at an \<^verbatim>\<open>await\<close> that has not settled. A computation is
  the actions performed so far together with the outcome.
\<close>

datatype 'a outcome = Returned 'a | Thrown error | Suspended

type_synonym 'a comp = "action list \<times> 'a outcome"

definition ret :: "'a \<Rightarrow> 'a comp" where
  "ret x = ([], Returned x)"

definition emit :: "action list \<Rightarrow> unit comp" where
  "emit as = (as, Returned ())"

definition await :: "action \<Rightarrow> 'a response \<Rightarrow> 'a comp" where
  "await request r =
     (case r of
        Resolves x \<Rightarrow> ([request], Returned x)
      | Rejects e \<Rightarrow> ([request], Thrown e)
      | Never_settles \<Rightarrow> ([request], Suspended))"

definition bind :: "'a comp \<Rightarrow> ('a \<Rightarrow> 'b comp) \<Rightarrow> 'b comp" where
  "bind m f =
     (case m of
        (t, Returned x) \<Rightarrow> (case f x of (t', r) \<Rightarrow> (t @ t', r))
      | (t, Thrown e) \<Rightarrow> (t, Thrown e)
      | (t, Suspended) \<Rightarrow> (t, Suspended))"

definition try_catch :: "'a comp \<Rightarrow> (error \<Rightarrow> 'a comp) \<Rightarrow> 'a comp" where
  "try_catch m handler =
     (case m of
        (t, Thrown e) \<Rightarrow> (case handler e of (t', r) \<Rightarrow> (t @ t', r))
      | (t, r) \<Rightarrow> (t, r))"

text \<open>
  \<^verbatim>\<open>finally\<close> with a block of setter and timer calls, which cannot throw: the block runs
  when the protected part returns or throws, and not while it is suspended.
\<close>

definition try_finally :: "'a comp \<Rightarrow> action list \<Rightarrow> 'a comp" where
  "try_finally m fin =
     (case m of
        (t, Suspended) \<Rightarrow> (t, Suspended)
      | (t, r) \<Rightarrow> (t @ fin, r))"

section \<open>Provider state\<close>

datatype timer = NoTimer | Armed nat | Cleared | Fired

record AuthState =
  user :: "User option"
  session :: "Session option"
  participant :: "Participant option"
  isLoading :: bool
  isActualAdmin :: bool
  viewAsUser :: bool
  userStatus :: "string option"
  authInitialized :: bool
  safetyTimeout :: timer
  subscribed :: bool

definition initial_state :: AuthState where
  "initial_state =
     \<lparr> user = None, session = None, participant = None, isLoading = True,
       isActualAdmin = False, viewAsUser = False, userStatus = None,
       authInitialized = False, safetyTimeout = NoTimer, subscribed = False \<rparr>"

fun apply_action :: "action \<Rightarrow> AuthState \<Rightarrow> AuthState" where
  "apply_action (SetUser u) s = s\<lparr>user := u\<rparr>"
| "apply_action (SetSession x) s = s\<lparr>session := x\<rparr>"
| "apply_action (SetParticipant p) s = s\<lparr>participant := p\<rparr>"
| "apply_action (SetIsLoading b) s = s\<lparr>isLoading := b\<rparr>"
| "apply_action (SetIsActualAdmin b) s = s\<lparr>isActualAdmin := b\<rparr>"
| "apply_action (SetViewAsUser b) s = s\<lparr>viewAsUser := b\<rparr>"
| "apply_action (SetUserStatus st) s = s\<lparr>userStatus := st\<rparr>"
| "apply_action (SetTimeout d) s = s\<lparr>safetyTimeout := Armed d\<rparr>"
| "apply_action ClearTimeout s =
     (case safetyTimeout s of Armed d \<Rightarrow> s\<lparr>safetyTimeout := Cleared\<rparr> | _ \<Rightarrow> s)"
| "apply_action Subscribe s = s\<lparr>subscribed := True\<rparr>"
| "apply_action Unsubscribe s = s\<lparr>subscribed := False\<rparr>"
| "apply_action _ s = s"

fun run :: "action list \<Rightarrow> AuthState \<Rightarrow> AuthState" where
  "run [] s = s"
| "run (a # as) s = run as (apply_action a s)"

text \<open>The value handed to consumers: \<^verbatim>\<open>isAdmin\<close> is derived on every render.\<close>

definition isAdmin :: "AuthState \<Rightarrow> bool" where
  "isAdmin s = (isActualAdmin s \<and> \<not> viewAsUser s)"

record AuthContextType =
  ctx_user :: "User option"
  ctx_session :: "Session option"
  ctx_participant :: "Participant option"
  ctx_isLoading :: bool
  ctx_isAdmin :: bool
  ctx_isActualAdmin :: bool
  ctx_viewAsUser :: bool
  ctx_userStatus :: "string option"

definition context_value :: "AuthState \<Rightarrow> AuthContextType" where
  "context_value s =
     \<lparr> ctx_user = user s, ctx_session = session s, ctx_participant = participant s,
       ctx_isLoading = isLoading s, ctx_isAdmin = isAdmin s,
       ctx_isActualAdmin = isActualAdmin s, ctx_viewAsUser = viewAsUser s,
       ctx_userStatus = userStatus s \<rparr>"

section \<open>Identity resolution\<close>

definition fetchParticipant :: "backend \<Rightarrow> User \<Rightarrow> Participant option comp" where
  "fetchParticipant supabase authUser =
     try_catch
       (bind
          (if truthy (email_of_user authUser)
           then await (Select_participants Email (string_of (email_of_user authUser)))
                  (participants_single supabase Email (string_of (email_of_user authUser)))
           else ret None)
          (\<lambda>data. case data of
             Some p \<Rightarrow> ret (Some p)
           | None \<Rightarrow>
               bind
                 (if truthy (user_name authUser)
                  then await (Select_participants Github_username (string_of (user_name authUser)))
                         (participants_single supabase Github_username
                            (string_of (user_name authUser)))
                  else ret None)
                 (\<lambda>data. case data of
                    Some p \<Rightarrow> ret (Some p)
                  | None \<Rightarrow>
                      bind
                        (await (Select_participants Auth_user_id (id_of_user authUser))
                           (participants_single supabase Auth_user_id (id_of_user authUser)))
                        (\<lambda>data. case data of
                           Some p \<Rightarrow> ret (Some p)
                         | None \<Rightarrow> ret None))))
       (\<lambda>error. bind (emit [Console_error ''fetchParticipant error:'' error]) (\<lambda>_. ret None))"

definition checkAdminUser :: "backend \<Rightarrow> string \<Rightarrow> bool comp" where
  "checkAdminUser supabase userId =
     try_catch
       (bind (await (Select_admin_users userId) (admin_users_single supabase userId))
          (\<lambda>data. ret (data \<noteq> None)))
       (\<lambda>_. ret False)"


fun message :: "error \<Rightarrow> string" where
  "message (Error m) = m"

text \<open>\<^verbatim>\<open>newSession?.user\<close>.\<close>

fun session_user :: "Session option \<Rightarrow> User option" where
  "session_user None = None"
| "session_user (Some x) = user_of_session x"

section \<open>Session bootstrap\<close>

text \<open>
  \<^verbatim>\<open>initAuth\<close>. The two early exits sit inside the \<^verbatim>\<open>try\<close>, so the \<^verbatim>\<open>finally\<close> block runs
  after them as well. The link repair is sent and its promise is dropped: it is an action
  whose response (\<open>participants_update\<close>) the function never reads.
\<close>

definition initAuth :: "backend \<Rightarrow> unit comp" where
  "initAuth supabase =
     try_finally
       (try_catch
          (bind (await Auth_getSession (auth_getSession supabase))
             (\<lambda>initialSession. case initialSession of
                None \<Rightarrow> emit [SetIsLoading False, ClearTimeout]
              | Some sess \<Rightarrow>
                  bind (await Auth_getUser (auth_getUser supabase))
                    (\<lambda>r. case (error_of_getUser r, data_user r) of
                       (None, Some validatedUser) \<Rightarrow>
                         bind (emit [SetSession (Some sess), SetUser (Some validatedUser)])
                           (\<lambda>_. bind (fetchParticipant supabase validatedUser)
                              (\<lambda>participantData.
                                 bind
                                   (case participantData of
                                      Some p \<Rightarrow>
                                        emit
                                          ([SetParticipant (Some p),
                                            SetUserStatus (Some ''approved''),
                                            SetIsActualAdmin (or_false (is_admin p))] @
                                           (if \<not> truthy (auth_user_id p)
                                            then [Update_participants_auth_user_id
                                                    (id_of_user validatedUser)
                                                    (id_of_participant p)]
                                            else []))
                                    | None \<Rightarrow> emit [SetUserStatus (Some ''no_profile'')])
                                   (\<lambda>_. bind
                                      (checkAdminUser supabase (id_of_user validatedUser))
                                      (\<lambda>isAdminUser.
                                         if isAdminUser
                                         then emit [SetIsActualAdmin True,
                                                    SetUserStatus (Some ''approved'')]
                                         else ret ()))))
                     | (error, _) \<Rightarrow>
                         emit [Console_log ''Session validation failed:''
                                 (map_option message error),
                               SetIsLoading False, ClearTimeout])))
          (\<lambda>error. emit [Console_error ''Auth initialization error:'' error]))
       [SetIsLoading False, ClearTimeout]"

text \<open>The callback of the safety timer, and the timer elapsing: the callback runs only
  if the timer is still armed.\<close>

definition safetyTimeout_callback :: "action list" where
  "safetyTimeout_callback = [Console_warn ''Auth initialization timed out'', SetIsLoading False]"

definition timer_elapses :: "AuthState \<Rightarrow> AuthState" where
  "timer_elapses s =
     (case safetyTimeout s of
        Armed d \<Rightarrow> run safetyTimeout_callback (s\<lparr>safetyTimeout := Fired\<rparr>)
      | _ \<Rightarrow> s)"

text \<open>
  The body of the mount effect: the one-shot latch, the timer, the call of \<^verbatim>\<open>initAuth\<close>
  (not awaited: a suspended \<^verbatim>\<open>initAuth\<close> does not hold back the subscription) and the
  subscription. The trace lists the actions of \<^verbatim>\<open>initAuth\<close> before \<open>Subscribe\<close>; the two
  touch different fields of the state.
\<close>

definition useEffect_body :: "backend \<Rightarrow> AuthState \<Rightarrow> action list \<times> AuthState" where
  "useEffect_body supabase s =
     (if authInitialized s then ([], s)
      else let t = [SetTimeout 10000] @ fst (initAuth supabase) @ [Subscribe]
           in (t, run t (s\<lparr>authInitialized := True\<rparr>)))"

definition useEffect_cleanup :: "action list" where
  "useEffect_cleanup = [ClearTimeout, Unsubscribe]"

section \<open>Session event listener\<close>

definition onAuthStateChange_callback :: "backend \<Rightarrow> string \<Rightarrow> Session option \<Rightarrow> unit comp" where
  "onAuthStateChange_callback supabase event newSession =
     (if event = ''SIGNED_OUT''
      then emit [SetSession None, SetUser None, SetParticipant None,
                 SetIsActualAdmin False, SetUserStatus None]
      else case (if event = ''SIGNED_IN'' then session_user newSession else None) of
        None \<Rightarrow> ret ()
      | Some newUser \<Rightarrow>
          bind (emit [SetSession newSession, SetUser (Some newUser)])
            (\<lambda>_. try_catch
               (bind (fetchParticipant supabase newUser)
                  (\<lambda>participantData.
                     bind
                       (case participantData of
                          Some p \<Rightarrow>
                            emit [SetParticipant (Some p),
                                  SetUserStatus (Some ''approved''),
                                  SetIsActualAdmin (or_false (is_admin p))]
                        | None \<Rightarrow> emit [SetUserStatus (Some ''no_profile'')])
                       (\<lambda>_. bind (checkAdminUser supabase (id_of_user newUser))
                          (\<lambda>isAdminUser.
                             if isAdminUser
                             then emit [SetIsActualAdmin True,
                                        SetUserStatus (Some ''approved'')]
                             else ret ()))))
               (\<lambda>error. emit [Console_error ''Auth state change error:'' error])))"

section \<open>Public operations\<close>

definition signOut :: "backend \<Rightarrow> unit comp" where
  "signOut supabase =
     bind (await Auth_signOut (auth_signOut supabase))
       (\<lambda>_. emit [SetUser None, SetSession None, SetParticipant None,
                   SetIsActualAdmin False, SetUserStatus None])"

text \<open>\<^verbatim>\<open>refreshParticipant\<close> reads \<^verbatim>\<open>user\<close> from the state it was rendered with.\<close>

definition refreshParticipant :: "backend \<Rightarrow> AuthState \<Rightarrow> unit comp" where
  "refreshParticipant supabase s =
     (case user s of
        None \<Rightarrow> ret ()
      | Some u \<Rightarrow>
          bind (fetchParticipant supabase u)
            (\<lambda>participantData. case participantData of
               Some p \<Rightarrow>
                 emit [SetParticipant (Some p),
                       SetUserStatus (Some ''approved''),
                       SetIsActualAdmin (or_false (is_admin p))]
             | None \<Rightarrow> ret ()))"

definition setViewAsUser :: "bool \<Rightarrow> unit comp" where
  "setViewAsUser v = emit [SetViewAsUser v]"

text \<open>The state after a computation: its actions applied in order.\<close>

definition exec :: "'a comp \<Rightarrow> AuthState \<Rightarrow> AuthState" where
  "exec m s = run (fst m) s"

section \<open>Server-side client construction\<close>

text \<open>
  A value of \<^verbatim>\<open>process.env\<close> is a JavaScript string, a sequence of 16-bit code units;
  \<^verbatim>\<open>trim\<close> removes the WhiteSpace and LineTerminator code points from both ends.
\<close>

type_synonym js_string = "16 word list"

definition is_white_space :: "16 word \<Rightarrow> bool" where
  "is_white_space c =
     (c \<in> set [0x0009, 0x000A, 0x000B, 0x000C, 0x000D, 0x0020, 0x00A0, 0x1680,
               0x2000, 0x2001, 0x2002, 0x2003, 0x2004, 0x2005, 0x2006, 0x2007,
               0x2008, 0x2009, 0x200A, 0x2028, 0x2029, 0x202F, 0x205F, 0x3000, 0xFEFF])"

definition trim :: "js_string \<Rightarrow> js_string" where
  "trim v = rev (dropWhile is_white_space (rev (dropWhile is_white_space v)))"

text \<open>The right arrow of the message (U+2192), as its three UTF-8 bytes.\<close>

definition arrow :: string where
  "arrow = [CHR 0xE2, CHR 0x86, CHR 0x92]"

definition missing_env_message :: "string \<Rightarrow> string" where
  "missing_env_message name =
     ''Missing env: '' @ name @ ''. Set it in Vercel '' @ arrow @ '' Project '' @ arrow @
     '' Settings '' @ arrow @ '' Environment Variables.''"

definition getRequiredEnv :: "(string \<Rightarrow> js_string option) \<Rightarrow> string \<Rightarrow> error + js_string" where
  "getRequiredEnv env name =
     (case env name of
        None \<Rightarrow> Inl (Error (missing_env_message name))
      | Some v \<Rightarrow>
          if trim v = [] then Inl (Error (missing_env_message name)) else Inr v)"

type_synonym cookie_store = "(string \<times> string) list"

text \<open>
  \<^verbatim>\<open>createServerSupabaseClient\<close>: the request's cookie store is awaited first (the call may
  reject), then the two variables are read in order, then the two values and the cookie
  store are handed to \<^verbatim>\<open>createServerClient\<close> of the client library. That constructor is
  not code of this repository: it is the parameter \<open>createServerClient\<close>, which either
  throws (it validates its arguments) or yields the client, and whatever it does is the
  result.
\<close>

definition createServerSupabaseClient ::
    "(js_string \<Rightarrow> js_string \<Rightarrow> cookie_store \<Rightarrow> error + 'c) \<Rightarrow> cookie_store response \<Rightarrow>
     (string \<Rightarrow> js_string option) \<Rightarrow> 'c outcome" where
  "createServerSupabaseClient createServerClient cookies env =
     (case cookies of
        Rejects e \<Rightarrow> Thrown e
      | Never_settles \<Rightarrow> Suspended
      | Resolves cookieStore \<Rightarrow>
          (case getRequiredEnv env ''NEXT_PUBLIC_SUPABASE_URL'' of
             Inl e \<Rightarrow> Thrown e
           | Inr url \<Rightarrow>
               (case getRequiredEnv env ''NEXT_PUBLIC_SUPABASE_ANON_KEY'' of
                  Inl e \<Rightarrow> Thrown e
                | Inr anonKey \<Rightarrow>
                    (case createServerClient url anonKey cookieStore of
                       Inl e \<Rightarrow> Thrown e
                     | Inr c \<Rightarrow> Returned c))))"

section \<open>The lookup order in the specification's words\<close>

text \<open>
  The specification lists the strategies of participant lookup: by email, if the identity
  carries one; by handle, if present; by the identifier of the external identity. The
  first match wins, and an exception during lookup degrades to no match. These two
  definitions follow that wording, for comparison with \<open>fetchParticipant\<close>.
\<close>

definition spec_strategies :: "User \<Rightarrow> (column \<times> string) list" where
  "spec_strategies authUser =
     (if truthy (email_of_user authUser)
      then [(Email, string_of (email_of_user authUser))] else []) @
     (if truthy (user_name authUser)
      then [(Github_username, string_of (user_name authUser))] else []) @
     [(Auth_user_id, id_of_user authUser)]"

fun spec_lookup :: "backend \<Rightarrow> (column \<times> string) list \<Rightarrow> Participant option comp" where
  "spec_lookup supabase [] = ([], Returned None)"
| "spec_lookup supabase ((c, v) # rest) =
     (case participants_single supabase c v of
        Resolves (Some p) \<Rightarrow> ([Select_participants c v], Returned (Some p))
      | Resolves None \<Rightarrow>
          (case spec_lookup supabase rest of (t, r) \<Rightarrow> (Select_participants c v # t, r))
      | Rejects e \<Rightarrow>
          ([Select_participants c v, Console_error ''fetchParticipant error:'' e], Returned None)
      | Never_settles \<Rightarrow> ([Select_participants c v], Suspended))"

text \<open>The participant lookups a trace sent, in order.\<close>

fun lookups :: "action list \<Rightarrow> (column \<times> string) list" where
  "lookups [] = []"
| "lookups (Select_participants c v # as) = (c, v) # lookups as"
| "lookups (_ # as) = lookups as"

section \<open>Missing configuration in the specification's words\<close>

text \<open>
  A variable is missing when it is unset or its value consists of white space only. The
  environment \<open>example_env\<close> sets the two variables as given.
\<close>

definition unset_or_blank :: "(string \<Rightarrow> js_string option) \<Rightarrow> string \<Rightarrow> bool" where
  "unset_or_blank env name =
     (case env name of None \<Rightarrow> True | Some v \<Rightarrow> list_all is_white_space v)"

definition example_env :: "js_string option \<Rightarrow> js_string option \<Rightarrow> string \<Rightarrow> js_string option" where
  "example_env url key name =
     (if name = ''NEXT_PUBLIC_SUPABASE_URL'' then url
      else if name = ''NEXT_PUBLIC_SUPABASE_ANON_KEY'' then key
      else None)"

section \<open>Predicates on traces and backends\<close>

text \<open>
  An action is benign when it neither arms the timer nor publishes \<^verbatim>\<open>loading = true\<close>.
  A backend settles when none of the calls the resolution awaits stays pending.
\<close>

fun benign :: "action \<Rightarrow> bool" where
  "benign (SetTimeout d) = False"
| "benign (SetIsLoading b) = (\<not> b)"
| "benign _ = True"

text \<open>
  A trace is guarded when it never arms the timer, never publishes \<^verbatim>\<open>loading = true\<close>,
  and clears the timer only after it has published \<^verbatim>\<open>loading = false\<close>; the flag says
  whether that has happened already.
\<close>

fun guarded :: "bool \<Rightarrow> action list \<Rightarrow> bool" where
  "guarded f [] = True"
| "guarded f (SetIsLoading b # t) = (\<not> b \<and> guarded True t)"
| "guarded f (ClearTimeout # t) = (f \<and> guarded f t)"
| "guarded f (SetTimeout d # t) = False"
| "guarded f (a # t) = guarded f t"

text \<open>The actions that write the loading flag or the timer.\<close>

fun touches_loading_or_timer :: "action \<Rightarrow> bool" where
  "touches_loading_or_timer (SetIsLoading b) = True"
| "touches_loading_or_timer (SetTimeout d) = True"
| "touches_loading_or_timer ClearTimeout = True"
| "touches_loading_or_timer _ = False"

text \<open>The actions of a resolution run after session and user are published: lookups,
  the admin-grant query, console output and the three setters of the outcome.\<close>

fun resolution_action :: "action \<Rightarrow> bool" where
  "resolution_action (Select_participants c v) = True"
| "resolution_action (Select_admin_users uid) = True"
| "resolution_action (Console_error m e) = True"
| "resolution_action (SetParticipant p) = True"
| "resolution_action (SetUserStatus st) = True"
| "resolution_action (SetIsActualAdmin a) = True"
| "resolution_action _ = False"

definition settles :: "backend \<Rightarrow> bool" where
  "settles b =
     ((\<forall>c v. participants_single b c v \<noteq> Never_settles)
      \<and> (\<forall>uid. admin_users_single b uid \<noteq> Never_settles)
      \<and> auth_getSession b \<noteq> Never_settles
      \<and> auth_getUser b \<noteq> Never_settles)"

section \<open>Concrete inputs\<close>

definition example_user :: User where
  "example_user = \<lparr> id_of_user = ''u1'', email_of_user = Some ''a@x.com'', user_name = None \<rparr>"

definition example_session :: Session where
  "example_session = \<lparr> access_token = ''t1'', user_of_session = Some example_user \<rparr>"

definition example_participant :: Participant where
  "example_participant =
     \<lparr> id_of_participant = ''p1'', email = Some ''a@x.com'', github_username = None,
       auth_user_id = None, is_admin = Some False \<rparr>"

definition example_grant :: AdminUser where
  "example_grant = \<lparr> user_id = ''u1'', is_active = True \<rparr>"

text \<open>
  A backend that holds a session of \<open>example_user\<close> and answers the lookup by email, the
  lookup by identifier and the admin-grant query as given.
\<close>

definition example_backend ::
    "Participant option response \<Rightarrow> Participant option response \<Rightarrow>
     AdminUser option response \<Rightarrow> backend" where
  "example_backend by_email by_id grant =
     \<lparr> participants_single =
         (\<lambda>c v. case c of Email \<Rightarrow> by_email | Github_username \<Rightarrow> Resolves None
                | Auth_user_id \<Rightarrow> by_id),
       admin_users_single = (\<lambda>uid. grant),
       participants_update = (\<lambda>uid pid. Resolves ()),
       auth_getSession = Resolves (Some example_session),
       auth_getUser = Resolves \<lparr> data_user = Some example_user, error_of_getUser = None \<rparr>,
       auth_signOut = Resolves None \<rparr>"

text \<open>
  The same backend with a given outcome of the remote sign-out call, a state in which
  \<open>example_user\<close> is signed in, and that state with administrator status.
\<close>

definition signOut_backend :: "error option response \<Rightarrow> backend" where
  "signOut_backend r =
     (example_backend (Resolves None) (Resolves None) (Resolves None)) \<lparr> auth_signOut := r \<rparr>"

definition signed_in_state :: AuthState where
  "signed_in_state =
     run [SetSession (Some example_session), SetUser (Some example_user)] initial_state"

definition admin_state :: AuthState where
  "admin_state =
     run [SetIsActualAdmin True, SetUserStatus (Some ''approved'')] signed_in_state"

text \<open>The same backend with given answers of the session and user calls.\<close>

definition session_backend :: "Session option response \<Rightarrow> GetUserResult response \<Rightarrow> backend" where
  "session_backend gs gu =
     (example_backend (Resolves None) (Resolves None) (Resolves None))
       \<lparr> auth_getSession := gs, auth_getUser := gu \<rparr>"

text \<open>
  A stand-in for the constructor of the client library, for concrete inputs only: the
  library rejects a URL that is not an HTTP or HTTPS URL; here a URL is accepted when it
  starts with \<^verbatim>\<open>http://\<close> or \<^verbatim>\<open>https://\<close>, and the client is the record of what it was
  given. \<open>example_url\<close> is \<^verbatim>\<open>https://x\<close>.
\<close>

record client =
  supabaseUrl :: js_string
  supabaseKey :: js_string
  cookieStore :: cookie_store

definition example_createServerClient ::
    "js_string \<Rightarrow> js_string \<Rightarrow> cookie_store \<Rightarrow> error + client" where
  "example_createServerClient url key store =
     (if prefix [0x68, 0x74, 0x74, 0x70, 0x3A, 0x2F, 0x2F] url
         \<or> prefix [0x68, 0x74, 0x74, 0x70, 0x73, 0x3A, 0x2F, 0x2F] url
      then Inr \<lparr> supabaseUrl = url, supabaseKey = key, cookieStore = store \<rparr>
      else Inl (Error ''Invalid supabaseUrl: Must be a valid HTTP or HTTPS URL.''))"

definition example_url :: js_string where
  "example_url = [0x68, 0x74, 0x74, 0x70, 0x73, 0x3A, 0x2F, 0x2F, 0x78]"

section \<open>Auxiliary lemmas\<close>

lemmas comp_defs = ret_def emit_def await_def bind_def try_catch_def try_finally_def

lemmas example_defs = example_user_def example_session_def example_participant_def
  example_grant_def example_backend_def

lemma run_append: "run (xs @ ys) s = run ys (run xs s)"
  by (induction xs arbitrary: s) simp_all

lemma fetchParticipant_refines:
  "fetchParticipant supabase authUser = spec_lookup supabase (spec_strategies authUser)"
  by (simp add: fetchParticipant_def spec_strategies_def comp_defs
           split: response.splits option.splits)

lemma spec_lookup_prefix: "prefix (lookups (fst (spec_lookup b qs))) qs"
  by (induction b qs rule: spec_lookup.induct)
     (auto split: response.splits option.splits prod.splits)

lemma spec_lookup_not_thrown: "snd (spec_lookup b qs) \<noteq> Thrown e"
  by (induction b qs rule: spec_lookup.induct)
     (auto split: response.splits option.splits prod.splits)

lemma spec_lookup_match:
  "snd (spec_lookup b qs) = Returned (Some p) \<Longrightarrow>
   \<exists>pre c v. lookups (fst (spec_lookup b qs)) = pre @ [(c, v)]
     \<and> participants_single b c v = Resolves (Some p)
     \<and> (\<forall>(c', v') \<in> set pre. participants_single b c' v' = Resolves None)"
proof (induction b qs rule: spec_lookup.induct)
  case (1 supabase)
  then show ?case by simp
next
  case (2 supabase c v rest)
  show ?case
  proof (cases "participants_single supabase c v")
    case (Resolves d)
    show ?thesis
    proof (cases d)
      case None
      with Resolves 2 obtain pre c' v' where
        "lookups (fst (spec_lookup supabase rest)) = pre @ [(c', v')]"
        "participants_single supabase c' v' = Resolves (Some p)"
        "\<forall>(c'', v'') \<in> set pre. participants_single supabase c'' v'' = Resolves None"
        by (auto split: prod.splits)
      with None Resolves show ?thesis
        by (intro exI [of _ "(c, v) # pre"] exI [of _ c'] exI [of _ v'])
           (auto split: prod.splits)
    next
      case (Some q)
      with Resolves 2 show ?thesis
        by (intro exI [of _ "[]"] exI [of _ c] exI [of _ v]) auto
    qed
  next
    case (Rejects e)
    with 2 show ?thesis by simp
  next
    case Never_settles
    with 2 show ?thesis by simp
  qed
qed

lemma spec_lookup_none_iff:
  "snd (spec_lookup b qs) \<noteq> Suspended \<Longrightarrow>
   (snd (spec_lookup b qs) = Returned None) =
   (\<forall>(c, v) \<in> set (lookups (fst (spec_lookup b qs))).
      \<forall>p. participants_single b c v \<noteq> Resolves (Some p))"
  by (induction b qs rule: spec_lookup.induct)
     (auto split: response.splits option.splits prod.splits)

lemma spec_lookup_all_resolve:
  "\<forall>(c, v) \<in> set qs. \<exists>d. participants_single b c v = Resolves d \<Longrightarrow>
   (snd (spec_lookup b qs) = Returned None) =
   (\<forall>(c, v) \<in> set qs. participants_single b c v = Resolves None)"
  by (induction b qs rule: spec_lookup.induct)
     (auto split: response.splits option.splits prod.splits)

lemma spec_lookup_rejects:
  "(c, v) \<in> set (lookups (fst (spec_lookup b qs))) \<Longrightarrow>
   participants_single b c v = Rejects e \<Longrightarrow>
   snd (spec_lookup b qs) = Returned None"
  by (induction b qs rule: spec_lookup.induct)
     (auto split: response.splits option.splits prod.splits)

lemma spec_lookup_passive: "run (fst (spec_lookup b qs)) s = s"
  by (induction b qs rule: spec_lookup.induct)
     (auto split: response.splits option.splits prod.splits)

lemma fetchParticipant_passive: "run (fst (fetchParticipant b u)) s = s"
  by (simp add: fetchParticipant_refines spec_lookup_passive)

lemma fetchParticipant_not_thrown: "snd (fetchParticipant b u) \<noteq> Thrown e"
  by (simp add: fetchParticipant_refines spec_lookup_not_thrown)

lemma spec_lookup_actions:
  "a \<in> set (fst (spec_lookup b qs)) \<Longrightarrow>
   (\<exists>c v. a = Select_participants c v) \<or> (\<exists>m e. a = Console_error m e)"
  by (induction b qs rule: spec_lookup.induct)
     (auto split: response.splits option.splits prod.splits)

lemma fetchParticipant_actions:
  "a \<in> set (fst (fetchParticipant b u)) \<Longrightarrow>
   (\<exists>c v. a = Select_participants c v) \<or> (\<exists>m e. a = Console_error m e)"
  by (simp add: fetchParticipant_refines spec_lookup_actions)

lemma checkAdminUser_cases:
  "checkAdminUser b uid =
     (case admin_users_single b uid of
        Resolves d \<Rightarrow> ([Select_admin_users uid], Returned (d \<noteq> None))
      | Rejects e \<Rightarrow> ([Select_admin_users uid], Returned False)
      | Never_settles \<Rightarrow> ([Select_admin_users uid], Suspended))"
  by (simp add: checkAdminUser_def comp_defs split: response.splits)

lemma try_finally_snd: "snd (try_finally m fin) = snd m"
  by (cases m; cases "snd m") (auto simp: try_finally_def)

lemma try_finally_fst:
  "fst (try_finally m fin) = (if snd m = Suspended then fst m else fst m @ fin)"
  by (cases m; cases "snd m") (auto simp: try_finally_def)

lemma try_catch_emit_not_thrown: "snd (try_catch m (\<lambda>e. emit (f e))) \<noteq> Thrown e'"
  by (cases m; cases "snd m") (auto simp: try_catch_def emit_def)

lemma snd_emit: "snd (emit as) = Returned ()"
  by (simp add: emit_def)

lemma initAuth_not_thrown: "snd (initAuth b) \<noteq> Thrown e"
  unfolding initAuth_def try_finally_snd by (rule try_catch_emit_not_thrown)

lemma callback_not_thrown: "snd (onAuthStateChange_callback b ev x) \<noteq> Thrown e"
proof (cases "if ev = ''SIGNED_IN'' then session_user x else None")
  case None
  then show ?thesis by (simp add: onAuthStateChange_callback_def ret_def emit_def)
next
  case (Some w)
  have "snd (bind (emit as) (\<lambda>_. m)) = snd m" for as and m :: "unit comp"
    by (cases m) (simp add: bind_def emit_def)
  with Some show ?thesis
    by (simp add: onAuthStateChange_callback_def try_catch_emit_not_thrown snd_emit)
qed

lemma spec_lookup_settles:
  "\<forall>c v. participants_single b c v \<noteq> Never_settles \<Longrightarrow> \<exists>d. snd (spec_lookup b qs) = Returned d"
  by (induction b qs rule: spec_lookup.induct)
     (auto split: response.splits option.splits prod.splits)

lemma fetchParticipant_settles:
  "settles b \<Longrightarrow> \<exists>d. snd (fetchParticipant b u) = Returned d"
  by (simp add: fetchParticipant_refines spec_lookup_settles settles_def)

lemma checkAdminUser_settles:
  "settles b \<Longrightarrow> \<exists>a. snd (checkAdminUser b uid) = Returned a"
  by (cases "admin_users_single b uid") (auto simp: checkAdminUser_cases settles_def)

lemma initAuth_settles: "settles b \<Longrightarrow> snd (initAuth b) = Returned ()"
proof -
  assume s: "settles b"
  have "snd (initAuth b) \<noteq> Suspended"
  proof (cases "auth_getSession b")
    case (Resolves i)
    show ?thesis
    proof (cases i)
      case None
      with Resolves show ?thesis by (simp add: initAuth_def comp_defs)
    next
      case (Some sess)
      show ?thesis
      proof (cases "auth_getUser b")
        case r: (Resolves r)
        show ?thesis
        proof (cases "error_of_getUser r = None \<and> data_user r \<noteq> None")
          case True
          then obtain w where w: "data_user r = Some w" "error_of_getUser r = None" by auto
          from fetchParticipant_settles [OF s, of w] obtain t d
            where f: "fetchParticipant b w = (t, Returned d)"
            by (cases "fetchParticipant b w") auto
          from checkAdminUser_settles [OF s, of "id_of_user w"] obtain t' a
            where c: "checkAdminUser b (id_of_user w) = (t', Returned a)"
            by (cases "checkAdminUser b (id_of_user w)") auto
          from Resolves Some r w f c show ?thesis
            by (cases d) (simp_all add: initAuth_def comp_defs)
        next
          case False
          with Resolves Some r show ?thesis
            by (auto simp: initAuth_def comp_defs split: option.splits)
        qed
      next
        case (Rejects e)
        with Resolves Some show ?thesis by (simp add: initAuth_def comp_defs)
      next
        case Never_settles
        with s show ?thesis by (simp add: settles_def)
      qed
    qed
  next
    case (Rejects e)
    then show ?thesis by (simp add: initAuth_def comp_defs)
  next
    case Never_settles
    with s show ?thesis by (simp add: settles_def)
  qed
  with initAuth_not_thrown [of b] show ?thesis
    by (cases "snd (initAuth b)") auto
qed

lemma callback_settles: "settles b \<Longrightarrow> snd (onAuthStateChange_callback b ev x) = Returned ()"
proof -
  assume s: "settles b"
  have "snd (onAuthStateChange_callback b ev x) \<noteq> Suspended"
  proof (cases "if ev = ''SIGNED_IN'' then session_user x else None")
    case None
    then show ?thesis by (simp add: onAuthStateChange_callback_def ret_def emit_def)
  next
    case (Some w)
    from fetchParticipant_settles [OF s, of w] obtain t d
      where f: "fetchParticipant b w = (t, Returned d)"
      by (cases "fetchParticipant b w") auto
    from checkAdminUser_settles [OF s, of "id_of_user w"] obtain t' a
      where c: "checkAdminUser b (id_of_user w) = (t', Returned a)"
      by (cases "checkAdminUser b (id_of_user w)") auto
    from Some f c show ?thesis
      by (cases d) (simp_all add: onAuthStateChange_callback_def comp_defs)
  qed
  with callback_not_thrown [of b ev x] show ?thesis
    by (cases "snd (onAuthStateChange_callback b ev x)") auto
qed

lemma benign_run_loading:
  "\<forall>a \<in> set t. benign a \<Longrightarrow> \<not> isLoading s \<Longrightarrow> \<not> isLoading (run t s)"
proof (induction t arbitrary: s)
  case Nil
  then show ?case by simp
next
  case (Cons a t)
  from Cons.prems have "\<not> isLoading (apply_action a s)"
    by (cases a) (auto split: timer.splits)
  with Cons show ?case by simp
qed

lemma benign_run_timer:
  "\<forall>a \<in> set t. benign a \<Longrightarrow> \<forall>d. safetyTimeout s \<noteq> Armed d \<Longrightarrow>
   safetyTimeout (run t s) = safetyTimeout s"
proof (induction t arbitrary: s)
  case Nil
  then show ?case by simp
next
  case (Cons a t)
  from Cons.prems have "safetyTimeout (apply_action a s) = safetyTimeout s"
    by (cases a) (auto split: timer.splits)
  with Cons show ?case by simp
qed

lemma fetchParticipant_benign:
  "a \<in> set (fst (fetchParticipant b u)) \<Longrightarrow> benign a"
  using fetchParticipant_actions [of a b u] by auto

text \<open>
  \<open>initAuth\<close> unfolded along its awaits: the early exits, the run suspended in the lookup,
  and the resolution once the lookup has returned.
\<close>

lemma initAuth_resolved:
  assumes "auth_getSession b = Resolves (Some sess)"
    and "auth_getUser b = Resolves r" "error_of_getUser r = None" "data_user r = Some u"
    and "fetchParticipant b u = (t, Returned pd)"
  shows "initAuth b =
    (case admin_users_single b (id_of_user u) of
       Never_settles \<Rightarrow>
         ([Auth_getSession, Auth_getUser, SetSession (Some sess), SetUser (Some u)] @ t @
          (case pd of
             Some p \<Rightarrow>
               [SetParticipant (Some p), SetUserStatus (Some ''approved''),
                SetIsActualAdmin (or_false (is_admin p))] @
               (if \<not> truthy (auth_user_id p)
                then [Update_participants_auth_user_id (id_of_user u) (id_of_participant p)]
                else [])
           | None \<Rightarrow> [SetUserStatus (Some ''no_profile'')]) @
          [Select_admin_users (id_of_user u)], Suspended)
     | Rejects e \<Rightarrow>
         ([Auth_getSession, Auth_getUser, SetSession (Some sess), SetUser (Some u)] @ t @
          (case pd of
             Some p \<Rightarrow>
               [SetParticipant (Some p), SetUserStatus (Some ''approved''),
                SetIsActualAdmin (or_false (is_admin p))] @
               (if \<not> truthy (auth_user_id p)
                then [Update_participants_auth_user_id (id_of_user u) (id_of_participant p)]
                else [])
           | None \<Rightarrow> [SetUserStatus (Some ''no_profile'')]) @
          [Select_admin_users (id_of_user u), SetIsLoading False, ClearTimeout], Returned ())
     | Resolves d \<Rightarrow>
         ([Auth_getSession, Auth_getUser, SetSession (Some sess), SetUser (Some u)] @ t @
          (case pd of
             Some p \<Rightarrow>
               [SetParticipant (Some p), SetUserStatus (Some ''approved''),
                SetIsActualAdmin (or_false (is_admin p))] @
               (if \<not> truthy (auth_user_id p)
                then [Update_participants_auth_user_id (id_of_user u) (id_of_participant p)]
                else [])
           | None \<Rightarrow> [SetUserStatus (Some ''no_profile'')]) @
          [Select_admin_users (id_of_user u)] @
          (if d \<noteq> None then [SetIsActualAdmin True, SetUserStatus (Some ''approved'')] else []) @
          [SetIsLoading False, ClearTimeout], Returned ()))"
  using assms
  by (cases pd; cases "admin_users_single b (id_of_user u)")
     (simp_all add: initAuth_def checkAdminUser_cases comp_defs)

lemma initAuth_lookup_suspended:
  assumes "auth_getSession b = Resolves (Some sess)"
    and "auth_getUser b = Resolves r" "error_of_getUser r = None" "data_user r = Some u"
    and "fetchParticipant b u = (t, Suspended)"
  shows "initAuth b =
    ([Auth_getSession, Auth_getUser, SetSession (Some sess), SetUser (Some u)] @ t, Suspended)"
  using assms by (simp add: initAuth_def comp_defs)

lemma initAuth_early:
  "auth_getSession b = Never_settles \<Longrightarrow> initAuth b = ([Auth_getSession], Suspended)"
  "auth_getSession b = Rejects e \<Longrightarrow>
     initAuth b = ([Auth_getSession, Console_error ''Auth initialization error:'' e,
                    SetIsLoading False, ClearTimeout], Returned ())"
  "auth_getSession b = Resolves None \<Longrightarrow>
     initAuth b = ([Auth_getSession, SetIsLoading False, ClearTimeout,
                    SetIsLoading False, ClearTimeout], Returned ())"
  "auth_getSession b = Resolves (Some sess) \<Longrightarrow> auth_getUser b = Never_settles \<Longrightarrow>
     initAuth b = ([Auth_getSession, Auth_getUser], Suspended)"
  "auth_getSession b = Resolves (Some sess) \<Longrightarrow> auth_getUser b = Rejects e \<Longrightarrow>
     initAuth b = ([Auth_getSession, Auth_getUser,
                    Console_error ''Auth initialization error:'' e,
                    SetIsLoading False, ClearTimeout], Returned ())"
  "auth_getSession b = Resolves (Some sess) \<Longrightarrow> auth_getUser b = Resolves r \<Longrightarrow>
   error_of_getUser r \<noteq> None \<or> data_user r = None \<Longrightarrow>
     initAuth b = ([Auth_getSession, Auth_getUser,
                    Console_log ''Session validation failed:''
                      (map_option message (error_of_getUser r)),
                    SetIsLoading False, ClearTimeout,
                    SetIsLoading False, ClearTimeout], Returned ())"
  by (auto simp: initAuth_def comp_defs split: option.splits)

lemma untouched_run:
  "\<forall>a \<in> set t. \<not> touches_loading_or_timer a \<Longrightarrow>
   isLoading (run t s) = isLoading s \<and> safetyTimeout (run t s) = safetyTimeout s"
proof (induction t arbitrary: s)
  case Nil
  then show ?case by simp
next
  case (Cons a t)
  from Cons.prems have "isLoading (apply_action a s) = isLoading s
      \<and> safetyTimeout (apply_action a s) = safetyTimeout s"
    by (cases a) auto
  with Cons show ?case by simp
qed

lemma untouched_benign: "\<not> touches_loading_or_timer a \<Longrightarrow> benign a"
  by (cases a) auto

lemma fetchParticipant_untouched:
  "a \<in> set (fst (fetchParticipant b u)) \<Longrightarrow> \<not> touches_loading_or_timer a"
  using fetchParticipant_actions [of a b u] by auto

lemma initAuth_shape:
  obtains (hung) t where "initAuth b = (t, Suspended)"
      "\<forall>a \<in> set t. \<not> touches_loading_or_timer a"
  | (completed) t0 where "initAuth b = (t0 @ [SetIsLoading False, ClearTimeout], Returned ())"
      "\<forall>a \<in> set t0. benign a"
proof (cases "auth_getSession b")
  case Never_settles
  from initAuth_early(1) [OF this] show ?thesis by (intro hung [of "[Auth_getSession]"]) auto
next
  case (Rejects e)
  from initAuth_early(2) [OF this] show ?thesis
    by (intro completed [of "[Auth_getSession, Console_error ''Auth initialization error:'' e]"])
       auto
next
  case (Resolves i)
  show ?thesis
  proof (cases i)
    case None
    with Resolves initAuth_early(3) [of b] show ?thesis
      by (intro completed [of "[Auth_getSession, SetIsLoading False, ClearTimeout]"]) auto
  next
    case (Some sess)
    with Resolves have gs: "auth_getSession b = Resolves (Some sess)" by simp
    show ?thesis
    proof (cases "auth_getUser b")
      case Never_settles
      from initAuth_early(4) [OF gs this] show ?thesis
        by (intro hung [of "[Auth_getSession, Auth_getUser]"]) auto
    next
      case (Rejects e)
      from initAuth_early(5) [OF gs this] show ?thesis
        by (intro completed [of "[Auth_getSession, Auth_getUser,
              Console_error ''Auth initialization error:'' e]"]) auto
    next
      case r: (Resolves r)
      show ?thesis
      proof (cases "error_of_getUser r \<noteq> None \<or> data_user r = None")
        case True
        from initAuth_early(6) [OF gs r True] show ?thesis
          by (intro completed [of "[Auth_getSession, Auth_getUser,
                Console_log ''Session validation failed:''
                  (map_option message (error_of_getUser r)),
                SetIsLoading False, ClearTimeout]"]) auto
      next
        case False
        then obtain u where v: "error_of_getUser r = None" "data_user r = Some u" by auto
        obtain t o' where f: "fetchParticipant b u = (t, o')" by (cases "fetchParticipant b u")
        from fetchParticipant_untouched [of _ b u] f
        have t: "\<forall>a \<in> set t. \<not> touches_loading_or_timer a" by simp
        then have t': "\<forall>a \<in> set t. benign a" by (simp add: untouched_benign)
        show ?thesis
        proof (cases o')
          case Suspended
          with f initAuth_lookup_suspended [OF gs r v, of t] t show ?thesis
            by (intro hung [of "[Auth_getSession, Auth_getUser, SetSession (Some sess),
                  SetUser (Some u)] @ t"]) auto
        next
          case (Thrown e)
          with f fetchParticipant_not_thrown [of b u e] show ?thesis by simp
        next
          case (Returned pd)
          with f have f': "fetchParticipant b u = (t, Returned pd)" by simp
          note eq = initAuth_resolved [OF gs r v f']
          show ?thesis
          proof (cases "admin_users_single b (id_of_user u)")
            case Never_settles
            with eq t show ?thesis
              by (intro hung [of "fst (initAuth b)"]) (auto split: option.splits)
          next
            case (Rejects e)
            with eq t' show ?thesis
              by (intro completed [of "butlast (butlast (fst (initAuth b)))"])
                 (auto split: option.splits simp: butlast_append)
          next
            case (Resolves d)
            with eq t' show ?thesis
              by (intro completed [of "butlast (butlast (fst (initAuth b)))"])
                 (auto split: option.splits simp: butlast_append)
          qed
        qed
      qed
    qed
  qed
qed

text \<open>The listener callback unfolded in the same way.\<close>

lemma callback_signed_out:
  "onAuthStateChange_callback b ''SIGNED_OUT'' x =
     ([SetSession None, SetUser None, SetParticipant None, SetIsActualAdmin False,
       SetUserStatus None], Returned ())"
  by (simp add: onAuthStateChange_callback_def emit_def)

lemma callback_ignored:
  "ev \<noteq> ''SIGNED_OUT'' \<Longrightarrow> ev \<noteq> ''SIGNED_IN'' \<or> session_user x = None \<Longrightarrow>
   onAuthStateChange_callback b ev x = ([], Returned ())"
  by (auto simp: onAuthStateChange_callback_def ret_def)

lemma callback_lookup_suspended:
  assumes "session_user x = Some u" "fetchParticipant b u = (t, Suspended)"
  shows "onAuthStateChange_callback b ''SIGNED_IN'' x =
           ([SetSession x, SetUser (Some u)] @ t, Suspended)"
  using assms by (simp add: onAuthStateChange_callback_def comp_defs)

lemma callback_resolved:
  assumes "session_user x = Some u" "fetchParticipant b u = (t, Returned pd)"
  shows "onAuthStateChange_callback b ''SIGNED_IN'' x =
    (case admin_users_single b (id_of_user u) of
       Never_settles \<Rightarrow>
         ([SetSession x, SetUser (Some u)] @ t @
          (case pd of
             Some p \<Rightarrow>
               [SetParticipant (Some p), SetUserStatus (Some ''approved''),
                SetIsActualAdmin (or_false (is_admin p))]
           | None \<Rightarrow> [SetUserStatus (Some ''no_profile'')]) @
          [Select_admin_users (id_of_user u)], Suspended)
     | Rejects e \<Rightarrow>
         ([SetSession x, SetUser (Some u)] @ t @
          (case pd of
             Some p \<Rightarrow>
               [SetParticipant (Some p), SetUserStatus (Some ''approved''),
                SetIsActualAdmin (or_false (is_admin p))]
           | None \<Rightarrow> [SetUserStatus (Some ''no_profile'')]) @
          [Select_admin_users (id_of_user u)], Returned ())
     | Resolves d \<Rightarrow>
         ([SetSession x, SetUser (Some u)] @ t @
          (case pd of
             Some p \<Rightarrow>
               [SetParticipant (Some p), SetUserStatus (Some ''approved''),
                SetIsActualAdmin (or_false (is_admin p))]
           | None \<Rightarrow> [SetUserStatus (Some ''no_profile'')]) @
          [Select_admin_users (id_of_user u)] @
          (if d \<noteq> None then [SetIsActualAdmin True, SetUserStatus (Some ''approved'')] else []),
          Returned ()))"
  using assms
  by (cases pd; cases "admin_users_single b (id_of_user u)")
     (simp_all add: onAuthStateChange_callback_def checkAdminUser_cases comp_defs)

lemma fetchParticipant_resolution_action:
  "a \<in> set (fst (fetchParticipant b u)) \<Longrightarrow> resolution_action a"
  using fetchParticipant_actions [of a b u] by auto

lemma callback_signed_in_shape:
  assumes "session_user x = Some u"
  obtains rest where
    "fst (onAuthStateChange_callback b ''SIGNED_IN'' x) =
       [SetSession x, SetUser (Some u)] @ fst (fetchParticipant b u) @ rest"
    "\<forall>a \<in> set (fst (fetchParticipant b u) @ rest). resolution_action a"
proof -
  obtain t o' where f: "fetchParticipant b u = (t, o')" by (cases "fetchParticipant b u")
  from fetchParticipant_resolution_action [of _ b u] f
  have t: "\<forall>a \<in> set t. resolution_action a" by simp
  show ?thesis
  proof (cases o')
    case Suspended
    with f callback_lookup_suspended [OF assms, of b t] t show ?thesis
      by (intro that [of "[]"]) auto
  next
    case (Thrown e)
    with f fetchParticipant_not_thrown [of b u e] show ?thesis by simp
  next
    case (Returned pd)
    with f have f': "fetchParticipant b u = (t, Returned pd)" by simp
    note eq = callback_resolved [OF assms f']
    show ?thesis
    proof (cases "admin_users_single b (id_of_user u)")
      case Never_settles
      with eq f t show ?thesis
        by (intro that [of "drop (2 + length t) (fst (onAuthStateChange_callback b ''SIGNED_IN'' x))"])
           (auto split: option.splits)
    next
      case (Rejects e)
      with eq f t show ?thesis
        by (intro that [of "drop (2 + length t) (fst (onAuthStateChange_callback b ''SIGNED_IN'' x))"])
           (auto split: option.splits)
    next
      case (Resolves d)
      with eq f t show ?thesis
        by (intro that [of "drop (2 + length t) (fst (onAuthStateChange_callback b ''SIGNED_IN'' x))"])
           (auto split: option.splits)
    qed
  qed
qed

lemma resolution_action_run:
  "\<forall>a \<in> set t. resolution_action a \<Longrightarrow>
   session (run t s) = session s \<and> user (run t s) = user s
   \<and> isLoading (run t s) = isLoading s \<and> safetyTimeout (run t s) = safetyTimeout s"
proof (induction t arbitrary: s)
  case Nil
  then show ?case by simp
next
  case (Cons a t)
  from Cons.prems have "session (apply_action a s) = session s \<and> user (apply_action a s) = user s
      \<and> isLoading (apply_action a s) = isLoading s
      \<and> safetyTimeout (apply_action a s) = safetyTimeout s"
    by (cases a) auto
  with Cons show ?case by simp
qed

lemma callback_benign: "a \<in> set (fst (onAuthStateChange_callback b ev x)) \<Longrightarrow> benign a"
proof (cases "ev = ''SIGNED_OUT''")
  case True
  assume "a \<in> set (fst (onAuthStateChange_callback b ev x))"
  with True show ?thesis by (auto simp: callback_signed_out)
next
  case False
  assume a: "a \<in> set (fst (onAuthStateChange_callback b ev x))"
  show ?thesis
  proof (cases "ev \<noteq> ''SIGNED_IN'' \<or> session_user x = None")
    case True
    from callback_ignored [OF False True] a show ?thesis by simp
  next
    case False
    then obtain u where u: "session_user x = Some u" and ev: "ev = ''SIGNED_IN''" by auto
    from callback_signed_in_shape [OF u, of b] obtain rest where
      "fst (onAuthStateChange_callback b ''SIGNED_IN'' x) =
         [SetSession x, SetUser (Some u)] @ fst (fetchParticipant b u) @ rest"
      "\<forall>a \<in> set (fst (fetchParticipant b u) @ rest). resolution_action a"
      by blast
    with a ev have "a = SetSession x \<or> a = SetUser (Some u) \<or> resolution_action a" by auto
    then show ?thesis by (cases a) auto
  qed
qed

lemma refreshParticipant_benign: "a \<in> set (fst (refreshParticipant b z)) \<Longrightarrow> benign a"
proof (cases "user z")
  case None
  assume "a \<in> set (fst (refreshParticipant b z))"
  with None show ?thesis by (simp add: refreshParticipant_def ret_def)
next
  case (Some u)
  assume a: "a \<in> set (fst (refreshParticipant b z))"
  obtain t o' where f: "fetchParticipant b u = (t, o')" by (cases "fetchParticipant b u")
  from fetchParticipant_benign [of _ b u] f have t: "\<forall>a \<in> set t. benign a" by simp
  from a Some f t show ?thesis
    by (cases o') (auto simp: refreshParticipant_def comp_defs split: option.splits)
qed

lemma signOut_benign: "a \<in> set (fst (signOut b)) \<Longrightarrow> benign a"
  by (cases "auth_signOut b") (auto simp: signOut_def comp_defs)

text \<open>The timer and the loading flag along benign traces.\<close>

lemma timer_elapses_not_loading: "\<not> isLoading z \<Longrightarrow> \<not> isLoading (timer_elapses z)"
  by (cases "safetyTimeout z") (simp_all add: timer_elapses_def safetyTimeout_callback_def)

lemma timer_elapses_armed:
  "safetyTimeout z = Armed d \<Longrightarrow>
   \<not> isLoading (timer_elapses z) \<and> safetyTimeout (timer_elapses z) = Fired"
  by (simp add: timer_elapses_def safetyTimeout_callback_def)

lemma timer_elapses_unarmed: "\<forall>d. safetyTimeout z \<noteq> Armed d \<Longrightarrow> timer_elapses z = z"
  by (cases "safetyTimeout z") (simp_all add: timer_elapses_def)

lemma completion_block:
  "\<not> isLoading (run [SetIsLoading False, ClearTimeout] z)
   \<and> (\<forall>d. safetyTimeout (run [SetIsLoading False, ClearTimeout] z) \<noteq> Armed d)
   \<and> (safetyTimeout z = Armed d' \<longrightarrow>
        safetyTimeout (run [SetIsLoading False, ClearTimeout] z) = Cleared)
   \<and> ((\<forall>d. safetyTimeout z \<noteq> Armed d) \<longrightarrow>
        safetyTimeout (run [SetIsLoading False, ClearTimeout] z) = safetyTimeout z)"
  by (cases "safetyTimeout z") simp_all

lemma benign_run_armed:
  "\<forall>a \<in> set t. benign a \<Longrightarrow> safetyTimeout s = Armed d \<Longrightarrow>
   safetyTimeout (run t s) = Armed d \<or> safetyTimeout (run t s) = Cleared"
proof (induction t arbitrary: s)
  case Nil
  then show ?case by simp
next
  case (Cons a t)
  from Cons.prems have "safetyTimeout (apply_action a s) = Armed d
      \<or> safetyTimeout (apply_action a s) = Cleared"
    by (cases a) auto
  then show ?case
  proof
    assume "safetyTimeout (apply_action a s) = Armed d"
    with Cons show ?thesis by simp
  next
    assume c: "safetyTimeout (apply_action a s) = Cleared"
    with Cons.prems benign_run_timer [of t "apply_action a s"] show ?thesis by simp
  qed
qed

lemma initAuth_benign: "a \<in> set (fst (initAuth b)) \<Longrightarrow> benign a"
  by (cases b rule: initAuth_shape) (auto simp: untouched_benign)

text \<open>\<open>trim\<close> yields the empty string exactly on strings of white space.\<close>

lemma dropWhile_all_iff:
  "(\<forall>x \<in> set (dropWhile P xs). P x) = (\<forall>x \<in> set xs. P x)"
proof
  assume a: "\<forall>x \<in> set (dropWhile P xs). P x"
  have "dropWhile P xs = []"
  proof (rule ccontr)
    assume n: "dropWhile P xs \<noteq> []"
    then have "\<not> P (hd (dropWhile P xs))" by (rule hd_dropWhile)
    moreover from n have "hd (dropWhile P xs) \<in> set (dropWhile P xs)" by (rule hd_in_set)
    ultimately show False using a by blast
  qed
  then show "\<forall>x \<in> set xs. P x" by (simp only: dropWhile_eq_Nil_conv)
next
  assume "\<forall>x \<in> set xs. P x"
  then show "\<forall>x \<in> set (dropWhile P xs). P x" by (blast dest: set_dropWhileD)
qed

lemma trim_empty_iff: "(trim v = []) = list_all is_white_space v"
  by (simp add: trim_def dropWhile_eq_Nil_conv dropWhile_all_iff list_all_iff)

lemma getRequiredEnv_cases:
  "getRequiredEnv env name =
     (if unset_or_blank env name then Inl (Error (missing_env_message name))
      else case env name of Some v \<Rightarrow> Inr v | None \<Rightarrow> Inl (Error (missing_env_message name)))"
  by (simp add: getRequiredEnv_def unset_or_blank_def trim_empty_iff split: option.splits)

text \<open>Guarded traces keep the timer armed until loading is false.\<close>

lemma guarded_untouched_append:
  "\<forall>a \<in> set t. \<not> touches_loading_or_timer a \<Longrightarrow> guarded f (t @ r) = guarded f r"
proof (induction t)
  case Nil
  then show ?case by simp
next
  case (Cons a t)
  then show ?case by (cases a) simp_all
qed

lemma guarded_untouched:
  "\<forall>a \<in> set t. \<not> touches_loading_or_timer a \<Longrightarrow> guarded f t"
  using guarded_untouched_append [of t f "[]"] by simp

lemma guarded_prefix: "guarded f (pre @ post) \<Longrightarrow> guarded f pre"
proof (induction pre arbitrary: f)
  case Nil
  then show ?case by simp
next
  case (Cons a pre)
  then show ?case by (cases a) auto
qed

lemma guarded_run:
  "guarded f t \<Longrightarrow> (f \<longrightarrow> \<not> isLoading s) \<Longrightarrow>
   (\<exists>d. safetyTimeout s = Armed d) \<or> \<not> isLoading s \<Longrightarrow>
   (\<exists>d. safetyTimeout (run t s) = Armed d) \<or> \<not> isLoading (run t s)"
proof (induction t arbitrary: f s)
  case Nil
  then show ?case by simp
next
  case (Cons a t)
  show ?case
  proof (cases a)
    case (SetIsLoading b)
    with Cons.prems have "guarded True t" "\<not> isLoading (apply_action a s)" by simp_all
    from Cons.IH [OF this(1), of "apply_action a s"] this(2) show ?thesis by simp
  next
    case ClearTimeout
    with Cons.prems have g: "guarded f t" and l: "\<not> isLoading s" by auto
    from l ClearTimeout have "\<not> isLoading (apply_action a s)"
      by (cases "safetyTimeout s") simp_all
    with Cons.IH [OF g, of "apply_action a s"] show ?thesis by simp
  next
    case (SetTimeout d)
    with Cons.prems show ?thesis by simp
  qed (use Cons in \<open>auto\<close>)
qed

lemma initAuth_guarded: "guarded False (fst (initAuth b))"
proof (cases "auth_getSession b")
  case Never_settles
  from initAuth_early(1) [OF this] show ?thesis by simp
next
  case (Rejects e)
  from initAuth_early(2) [OF this] show ?thesis by simp
next
  case (Resolves i)
  show ?thesis
  proof (cases i)
    case None
    with Resolves initAuth_early(3) [of b] show ?thesis by simp
  next
    case (Some sess)
    with Resolves have gs: "auth_getSession b = Resolves (Some sess)" by simp
    show ?thesis
    proof (cases "auth_getUser b")
      case Never_settles
      from initAuth_early(4) [OF gs this] show ?thesis by simp
    next
      case (Rejects e)
      from initAuth_early(5) [OF gs this] show ?thesis by simp
    next
      case r: (Resolves r)
      show ?thesis
      proof (cases "error_of_getUser r \<noteq> None \<or> data_user r = None")
        case True
        from initAuth_early(6) [OF gs r True] show ?thesis by simp
      next
        case False
        then obtain u where v: "error_of_getUser r = None" "data_user r = Some u" by auto
        obtain t o' where f: "fetchParticipant b u = (t, o')" by (cases "fetchParticipant b u")
        from fetchParticipant_untouched [of _ b u] f
        have t: "\<forall>a \<in> set t. \<not> touches_loading_or_timer a" by simp
        show ?thesis
        proof (cases o')
          case Suspended
          with f initAuth_lookup_suspended [OF gs r v, of t] t show ?thesis
            by (simp add: guarded_untouched)
        next
          case (Thrown e)
          with f fetchParticipant_not_thrown [of b u e] show ?thesis by simp
        next
          case (Returned pd)
          with f have f': "fetchParticipant b u = (t, Returned pd)" by simp
          from initAuth_resolved [OF gs r v f'] t show ?thesis
            by (cases "admin_users_single b (id_of_user u)"; cases pd)
               (simp_all add: guarded_untouched_append guarded_untouched)
        qed
      qed
    qed
  qed
qed

lemma timer_elapses_at_any_point:
  assumes "fst (initAuth b) = pre @ post"
  shows "\<not> isLoading (timer_elapses (run pre (run [SetTimeout 10000] s)))"
proof -
  let ?s0 = "run [SetTimeout 10000] s"
  from initAuth_guarded [of b] assms have "guarded False pre"
    by (simp add: guarded_prefix)
  from guarded_run [OF this, of ?s0]
  have "(\<exists>d. safetyTimeout (run pre ?s0) = Armed d) \<or> \<not> isLoading (run pre ?s0)"
    by simp
  then show ?thesis
    using timer_elapses_armed [of "run pre ?s0"] timer_elapses_not_loading [of "run pre ?s0"]
    by blast
qed

text \<open>
  What the listener callback does on its two events: the five clearing setters on a
  signed-out event; on a signed-in event with a user, the two publishing setters, then
  the lookup, the setters of its outcome, the admin check and the setters of the grant.
\<close>

lemma listener_callback_run:
  "onAuthStateChange_callback b ''SIGNED_OUT'' x =
     ([SetSession None, SetUser None, SetParticipant None, SetIsActualAdmin False,
       SetUserStatus None], Returned ())
   \<and> user (exec (onAuthStateChange_callback b ''SIGNED_OUT'' x) s) = None
   \<and> session (exec (onAuthStateChange_callback b ''SIGNED_OUT'' x) s) = None
   \<and> participant (exec (onAuthStateChange_callback b ''SIGNED_OUT'' x) s) = None
   \<and> \<not> isActualAdmin (exec (onAuthStateChange_callback b ''SIGNED_OUT'' x) s)
   \<and> userStatus (exec (onAuthStateChange_callback b ''SIGNED_OUT'' x) s) = None
   \<and> (session_user x = Some u \<longrightarrow>
        (\<exists>rest. fst (onAuthStateChange_callback b ''SIGNED_IN'' x) =
             [SetSession x, SetUser (Some u)] @ fst (fetchParticipant b u) @ rest
           \<and> (\<forall>a \<in> set (fst (fetchParticipant b u) @ rest). resolution_action a))
        \<and> snd (onAuthStateChange_callback b ''SIGNED_IN'' x) \<noteq> Thrown e
        \<and> session (exec (onAuthStateChange_callback b ''SIGNED_IN'' x) s) = x
        \<and> user (exec (onAuthStateChange_callback b ''SIGNED_IN'' x) s) = Some u
        \<and> (snd (fetchParticipant b u) = Returned pd \<longrightarrow>
            snd (checkAdminUser b (id_of_user u)) = Returned a \<longrightarrow>
            onAuthStateChange_callback b ''SIGNED_IN'' x =
              ([SetSession x, SetUser (Some u)] @ fst (fetchParticipant b u) @
               (case pd of
                  Some p \<Rightarrow>
                    [SetParticipant (Some p), SetUserStatus (Some ''approved''),
                     SetIsActualAdmin (or_false (is_admin p))]
                | None \<Rightarrow> [SetUserStatus (Some ''no_profile'')]) @
               fst (checkAdminUser b (id_of_user u)) @
               (if a then [SetIsActualAdmin True, SetUserStatus (Some ''approved'')] else []),
               Returned ())))"
proof -
  have out: "onAuthStateChange_callback b ''SIGNED_OUT'' x =
     ([SetSession None, SetUser None, SetParticipant None, SetIsActualAdmin False,
       SetUserStatus None], Returned ())"
    by (rule callback_signed_out)
  have cleared: "user (exec (onAuthStateChange_callback b ''SIGNED_OUT'' x) s) = None"
      "session (exec (onAuthStateChange_callback b ''SIGNED_OUT'' x) s) = None"
      "participant (exec (onAuthStateChange_callback b ''SIGNED_OUT'' x) s) = None"
      "\<not> isActualAdmin (exec (onAuthStateChange_callback b ''SIGNED_OUT'' x) s)"
      "userStatus (exec (onAuthStateChange_callback b ''SIGNED_OUT'' x) s) = None"
    by (simp_all add: out exec_def)
  have signed_in:
      "(\<exists>rest. fst (onAuthStateChange_callback b ''SIGNED_IN'' x) =
             [SetSession x, SetUser (Some u)] @ fst (fetchParticipant b u) @ rest
           \<and> (\<forall>a \<in> set (fst (fetchParticipant b u) @ rest). resolution_action a))
        \<and> snd (onAuthStateChange_callback b ''SIGNED_IN'' x) \<noteq> Thrown e
        \<and> session (exec (onAuthStateChange_callback b ''SIGNED_IN'' x) s) = x
        \<and> user (exec (onAuthStateChange_callback b ''SIGNED_IN'' x) s) = Some u
        \<and> (snd (fetchParticipant b u) = Returned pd \<longrightarrow>
            snd (checkAdminUser b (id_of_user u)) = Returned a \<longrightarrow>
            onAuthStateChange_callback b ''SIGNED_IN'' x =
              ([SetSession x, SetUser (Some u)] @ fst (fetchParticipant b u) @
               (case pd of
                  Some p \<Rightarrow>
                    [SetParticipant (Some p), SetUserStatus (Some ''approved''),
                     SetIsActualAdmin (or_false (is_admin p))]
                | None \<Rightarrow> [SetUserStatus (Some ''no_profile'')]) @
               fst (checkAdminUser b (id_of_user u)) @
               (if a then [SetIsActualAdmin True, SetUserStatus (Some ''approved'')] else []),
               Returned ()))"
    if u: "session_user x = Some u"
  proof -
    from callback_signed_in_shape [OF u, of b] obtain rest where r:
      "fst (onAuthStateChange_callback b ''SIGNED_IN'' x) =
         [SetSession x, SetUser (Some u)] @ fst (fetchParticipant b u) @ rest"
      "\<forall>a \<in> set (fst (fetchParticipant b u) @ rest). resolution_action a"
      by blast
    from resolution_action_run [OF r(2), of "run [SetSession x, SetUser (Some u)] s"] r(1)
    have kept: "session (exec (onAuthStateChange_callback b ''SIGNED_IN'' x) s) = x"
        "user (exec (onAuthStateChange_callback b ''SIGNED_IN'' x) s) = Some u"
      by (simp_all add: exec_def run_append)
    have full: "onAuthStateChange_callback b ''SIGNED_IN'' x =
              ([SetSession x, SetUser (Some u)] @ fst (fetchParticipant b u) @
               (case pd of
                  Some p \<Rightarrow>
                    [SetParticipant (Some p), SetUserStatus (Some ''approved''),
                     SetIsActualAdmin (or_false (is_admin p))]
                | None \<Rightarrow> [SetUserStatus (Some ''no_profile'')]) @
               fst (checkAdminUser b (id_of_user u)) @
               (if a then [SetIsActualAdmin True, SetUserStatus (Some ''approved'')] else []),
               Returned ())"
      if f: "snd (fetchParticipant b u) = Returned pd"
        and c: "snd (checkAdminUser b (id_of_user u)) = Returned a"
    proof -
      from f obtain t where f': "fetchParticipant b u = (t, Returned pd)"
        by (cases "fetchParticipant b u") simp
      from c callback_resolved [OF u f'] f' show ?thesis
        by (cases "admin_users_single b (id_of_user u)")
           (auto simp: checkAdminUser_cases)
    qed
    from r kept full callback_not_thrown [of b "''SIGNED_IN''" x e] show ?thesis by blast
  qed
  from out cleared signed_in show ?thesis by blast
qed

section \<open>The claims\<close>

text \<open>
  Claim C1. The \<^verbatim>\<open>isAdmin\<close> flag handed to consumers equals \<^verbatim>\<open>isActualAdmin\<close> and not
  \<^verbatim>\<open>viewAsUser\<close> in every state, hence in every reachable one. Setting \<^verbatim>\<open>viewAsUser\<close> to
  true leaves \<^verbatim>\<open>isActualAdmin\<close> as it is and makes the exposed flag false, so it can only
  lower it; and after any sequence \<open>t\<close> of actions the exposed flag is true only if
  \<^verbatim>\<open>isActualAdmin\<close> is.
\<close>

theorem isAdmin_derived_downgrade_only:
  "ctx_isAdmin (context_value s) =
     (ctx_isActualAdmin (context_value s) \<and> \<not> ctx_viewAsUser (context_value s))
   \<and> \<not> ctx_isAdmin (context_value (exec (setViewAsUser True) s))
   \<and> isActualAdmin (exec (setViewAsUser v) s) = isActualAdmin s
   \<and> (ctx_isAdmin (context_value (run t s)) \<longrightarrow> isActualAdmin (run t s))"
  by (simp add: context_value_def isAdmin_def exec_def setViewAsUser_def emit_def)

theorem isAdmin_derived_downgrade_only_witness:
  "ctx_isAdmin (context_value (run [SetIsActualAdmin True] initial_state))
   \<and> isActualAdmin (run [SetIsActualAdmin True] initial_state)
   \<and> \<not> ctx_isAdmin (context_value
          (exec (setViewAsUser True) (run [SetIsActualAdmin True] initial_state)))"
  using isAdmin_derived_downgrade_only [of "run [SetIsActualAdmin True] initial_state" True "[]"]
        isAdmin_derived_downgrade_only [of initial_state True "[SetIsActualAdmin True]"]
  by (simp add: context_value_def isAdmin_def initial_state_def)

text \<open>
  Claim C2. For every user identity, \<open>fetchParticipant\<close> is the lookup of the
  specification over the strategies by email (if the identity has one), by handle (if
  present) and by identifier, in this order. The lookups it sends are an initial part of
  that list. When it returns a participant, that participant is the answer of the last
  lookup sent and every lookup before it answered with no row, so the first match is
  returned and the remaining strategies are skipped. When it returns, it returns null
  exactly when none of the lookups it sent answered with a row; and when every strategy's
  lookup resolves, it returns null exactly when every strategy answers with no row.
\<close>

theorem fetchParticipant_first_match:
  "fetchParticipant b u = spec_lookup b (spec_strategies u)
   \<and> prefix (lookups (fst (fetchParticipant b u))) (spec_strategies u)
   \<and> (snd (fetchParticipant b u) = Returned (Some p) \<longrightarrow>
        (\<exists>pre c v. lookups (fst (fetchParticipant b u)) = pre @ [(c, v)]
           \<and> participants_single b c v = Resolves (Some p)
           \<and> (\<forall>(c', v') \<in> set pre. participants_single b c' v' = Resolves None)))
   \<and> (snd (fetchParticipant b u) \<noteq> Suspended \<longrightarrow>
        (snd (fetchParticipant b u) = Returned None) =
        (\<forall>(c, v) \<in> set (lookups (fst (fetchParticipant b u))).
           \<forall>q. participants_single b c v \<noteq> Resolves (Some q)))
   \<and> ((\<forall>(c, v) \<in> set (spec_strategies u). \<exists>d. participants_single b c v = Resolves d) \<longrightarrow>
        (snd (fetchParticipant b u) = Returned None) =
        (\<forall>(c, v) \<in> set (spec_strategies u). participants_single b c v = Resolves None))"
  unfolding fetchParticipant_refines
  using spec_lookup_prefix [of b "spec_strategies u"]
        spec_lookup_match [of b "spec_strategies u" p]
        spec_lookup_none_iff [of b "spec_strategies u"]
        spec_lookup_all_resolve [of "spec_strategies u" b]
  by blast

theorem fetchParticipant_first_match_witness:
  "fetchParticipant (example_backend (Resolves None) (Resolves (Some example_participant))
      (Resolves None)) example_user =
     ([Select_participants Email ''a@x.com'', Select_participants Auth_user_id ''u1''],
      Returned (Some example_participant))
   \<and> spec_strategies example_user = [(Email, ''a@x.com''), (Auth_user_id, ''u1'')]
   \<and> participants_single (example_backend (Resolves None) (Resolves (Some example_participant))
        (Resolves None)) Email ''a@x.com'' = Resolves None
   \<and> participants_single (example_backend (Resolves None) (Resolves (Some example_participant))
        (Resolves None)) Auth_user_id ''u1'' = Resolves (Some example_participant)
   \<and> fetchParticipant (example_backend (Resolves None) (Resolves None) (Resolves None))
        example_user =
     ([Select_participants Email ''a@x.com'', Select_participants Auth_user_id ''u1''],
      Returned None)"
  using fetchParticipant_first_match
          [of "example_backend (Resolves None) (Resolves (Some example_participant)) (Resolves None)"
              example_user example_participant]
        fetchParticipant_first_match
          [of "example_backend (Resolves None) (Resolves None) (Resolves None)"
              example_user example_participant]
  by (simp add: example_defs spec_strategies_def)

text \<open>
  Claim C3. Take a resolution run of the bootstrap (session present, user validated) or of
  the listener (signed-in event for the same user) whose participant lookup returned \<open>pd\<close>
  and whose admin-grant query settled. If no strategy matched, the run publishes the
  status \<^verbatim>\<open>no_profile\<close> and nothing else between the lookup and the admin-grant query:
  the participant path sets no admin flag. Without an active grant the run ends with status
  \<^verbatim>\<open>no_profile\<close> and with the admin flag and the participant as they were (false and
  null at bootstrap). With an active grant the run ends with \<^verbatim>\<open>isActualAdmin\<close> true and
  status \<^verbatim>\<open>approved\<close>, also when no participant was found.
\<close>

theorem resolution_status_and_admin:
  assumes boot: "auth_getSession b = Resolves (Some sess)"
      "auth_getUser b = Resolves \<lparr> data_user = Some u, error_of_getUser = None \<rparr>"
    and ev: "user_of_session x = Some u"
    and lookup: "snd (fetchParticipant b u) = Returned pd"
    and settled: "admin_users_single b (id_of_user u) \<noteq> Never_settles"
    and s1: "s1 = exec (initAuth b) s"
    and s2: "s2 = exec (onAuthStateChange_callback b ''SIGNED_IN'' (Some x)) s"
    and grant: "grant = (\<exists>g. admin_users_single b (id_of_user u) = Resolves (Some g))"
  shows "(pd = None \<longrightarrow>
            fst (initAuth b) =
              [Auth_getSession, Auth_getUser, SetSession (Some sess), SetUser (Some u)] @
              fst (fetchParticipant b u) @ [SetUserStatus (Some ''no_profile'')] @
              [Select_admin_users (id_of_user u)] @
              (if grant then [SetIsActualAdmin True, SetUserStatus (Some ''approved'')] else []) @
              [SetIsLoading False, ClearTimeout]
            \<and> fst (onAuthStateChange_callback b ''SIGNED_IN'' (Some x)) =
              [SetSession (Some x), SetUser (Some u)] @
              fst (fetchParticipant b u) @ [SetUserStatus (Some ''no_profile'')] @
              [Select_admin_users (id_of_user u)] @
              (if grant then [SetIsActualAdmin True, SetUserStatus (Some ''approved'')] else []))
         \<and> (pd = None \<longrightarrow> \<not> grant \<longrightarrow>
              userStatus s1 = Some ''no_profile'' \<and> userStatus s2 = Some ''no_profile''
              \<and> isActualAdmin s1 = isActualAdmin s \<and> isActualAdmin s2 = isActualAdmin s
              \<and> participant s1 = participant s \<and> participant s2 = participant s)
         \<and> (grant \<longrightarrow>
              isActualAdmin s1 \<and> userStatus s1 = Some ''approved''
              \<and> isActualAdmin s2 \<and> userStatus s2 = Some ''approved''
              \<and> (pd = None \<longrightarrow> participant s1 = participant s \<and> participant s2 = participant s))"
proof -
  obtain t where f: "fetchParticipant b u = (t, Returned pd)"
    using lookup by (cases "fetchParticipant b u") simp
  have p: "run t z = z" for z
    using fetchParticipant_passive [of b u z] f by simp
  show ?thesis
  proof (cases "admin_users_single b (id_of_user u)")
    case (Resolves d)
    with boot ev f s1 s2 grant show ?thesis
      by (cases pd; cases d)
         (simp_all add: initAuth_def onAuthStateChange_callback_def checkAdminUser_cases
            comp_defs exec_def run_append p split: timer.splits)
  next
    case (Rejects e)
    with boot ev f s1 s2 grant show ?thesis
      by (cases pd)
         (simp_all add: initAuth_def onAuthStateChange_callback_def checkAdminUser_cases
            comp_defs exec_def run_append p split: timer.splits)
  next
    case Never_settles
    with settled show ?thesis by simp
  qed
qed

theorem resolution_status_and_admin_witness:
  "userStatus (exec (initAuth (example_backend (Resolves None) (Resolves None) (Resolves None)))
      initial_state) = Some ''no_profile''
   \<and> \<not> isActualAdmin (exec (initAuth
        (example_backend (Resolves None) (Resolves None) (Resolves None))) initial_state)
   \<and> participant (exec (initAuth
        (example_backend (Resolves None) (Resolves None) (Resolves None))) initial_state) = None
   \<and> userStatus (exec (initAuth
        (example_backend (Resolves None) (Resolves None) (Resolves (Some example_grant))))
        initial_state) = Some ''approved''
   \<and> isActualAdmin (exec (initAuth
        (example_backend (Resolves None) (Resolves None) (Resolves (Some example_grant))))
        initial_state)
   \<and> participant (exec (initAuth
        (example_backend (Resolves None) (Resolves None) (Resolves (Some example_grant))))
        initial_state) = None
   \<and> userStatus (exec (onAuthStateChange_callback
        (example_backend (Resolves None) (Resolves None) (Resolves (Some example_grant)))
        ''SIGNED_IN'' (Some example_session)) initial_state) = Some ''approved''
   \<and> isActualAdmin (exec (onAuthStateChange_callback
        (example_backend (Resolves None) (Resolves None) (Resolves (Some example_grant)))
        ''SIGNED_IN'' (Some example_session)) initial_state)"
proof -
  let ?B0 = "example_backend (Resolves None) (Resolves None) (Resolves None)"
  let ?B1 = "example_backend (Resolves None) (Resolves None) (Resolves (Some example_grant))"
  have s0: "auth_getSession ?B0 = Resolves (Some example_session)"
    and s1: "auth_getSession ?B1 = Resolves (Some example_session)"
    by (simp_all add: example_backend_def)
  have u0: "auth_getUser ?B0 = Resolves \<lparr> data_user = Some example_user, error_of_getUser = None \<rparr>"
    and u1: "auth_getUser ?B1 = Resolves \<lparr> data_user = Some example_user, error_of_getUser = None \<rparr>"
    by (simp_all add: example_backend_def)
  have x: "user_of_session example_session = Some example_user"
    by (simp add: example_session_def)
  have l0: "snd (fetchParticipant ?B0 example_user) = Returned None"
    and l1: "snd (fetchParticipant ?B1 example_user) = Returned None"
    by (simp_all add: fetchParticipant_def comp_defs example_defs)
  have n0: "admin_users_single ?B0 (id_of_user example_user) \<noteq> Never_settles"
    and n1: "admin_users_single ?B1 (id_of_user example_user) \<noteq> Never_settles"
    by (simp_all add: example_backend_def)
  have g0: "\<not> (\<exists>g. admin_users_single ?B0 (id_of_user example_user) = Resolves (Some g))"
    and g1: "\<exists>g. admin_users_single ?B1 (id_of_user example_user) = Resolves (Some g)"
    by (simp_all add: example_backend_def)
  have i: "\<not> isActualAdmin initial_state" "participant initial_state = None"
    by (simp_all add: initial_state_def)
  from resolution_status_and_admin [OF s0 u0 x l0 n0 refl refl refl, of initial_state]
       resolution_status_and_admin [OF s1 u1 x l1 n1 refl refl refl, of initial_state]
       g0 g1 i
  show ?thesis by simp
qed

text \<open>
  Claim C4 at a failing input. The listener callback never sends the update that backfills
  the link, for any backend, event and session. For a user whose email matches a
  participant with no stored link, the signed-in event sends no update, while the
  bootstrap on the same backend sends exactly one, after the three setters and before the
  admin-grant query.
\<close>

theorem sign_in_event_sends_no_link_repair:
  "Update_participants_auth_user_id uid pid \<notin> set (fst (onAuthStateChange_callback b ev x))
   \<and> fst (onAuthStateChange_callback
        (example_backend (Resolves (Some example_participant)) (Resolves None) (Resolves None))
        ''SIGNED_IN'' (Some example_session)) =
       [SetSession (Some example_session), SetUser (Some example_user),
        Select_participants Email ''a@x.com'',
        SetParticipant (Some example_participant), SetUserStatus (Some ''approved''),
        SetIsActualAdmin False, Select_admin_users ''u1'']
   \<and> fst (initAuth
        (example_backend (Resolves (Some example_participant)) (Resolves None) (Resolves None))) =
       [Auth_getSession, Auth_getUser,
        SetSession (Some example_session), SetUser (Some example_user),
        Select_participants Email ''a@x.com'',
        SetParticipant (Some example_participant), SetUserStatus (Some ''approved''),
        SetIsActualAdmin False, Update_participants_auth_user_id ''u1'' ''p1'',
        Select_admin_users ''u1'', SetIsLoading False, ClearTimeout]"
proof -
  let ?B = "example_backend (Resolves (Some example_participant)) (Resolves None) (Resolves None)"
  have general: "Update_participants_auth_user_id uid pid
      \<notin> set (fst (onAuthStateChange_callback b ev x))"
  proof (cases "ev = ''SIGNED_OUT''")
    case True
    then show ?thesis by (simp add: callback_signed_out)
  next
    case False
    show ?thesis
    proof (cases "ev \<noteq> ''SIGNED_IN'' \<or> session_user x = None")
      case True
      from callback_ignored [OF False True] show ?thesis by simp
    next
      case False
      then obtain u where u: "session_user x = Some u" and ev: "ev = ''SIGNED_IN''" by auto
      from callback_signed_in_shape [OF u, of b] obtain rest where r:
        "fst (onAuthStateChange_callback b ''SIGNED_IN'' x) =
           [SetSession x, SetUser (Some u)] @ fst (fetchParticipant b u) @ rest"
        "\<forall>a \<in> set (fst (fetchParticipant b u) @ rest). resolution_action a"
        by blast
      have "Update_participants_auth_user_id uid pid
          \<notin> set (fst (fetchParticipant b u) @ rest)"
      proof
        assume "Update_participants_auth_user_id uid pid
          \<in> set (fst (fetchParticipant b u) @ rest)"
        with r(2) have "resolution_action (Update_participants_auth_user_id uid pid)"
          by blast
        then show False by simp
      qed
      with r(1) ev show ?thesis by simp
    qed
  qed
  have f: "fetchParticipant ?B example_user =
      ([Select_participants Email ''a@x.com''], Returned (Some example_participant))"
    by (simp add: fetchParticipant_def comp_defs example_defs)
  have su: "session_user (Some example_session) = Some example_user"
    by (simp add: example_session_def)
  have "fst (onAuthStateChange_callback ?B ''SIGNED_IN'' (Some example_session)) =
       [SetSession (Some example_session), SetUser (Some example_user),
        Select_participants Email ''a@x.com'',
        SetParticipant (Some example_participant), SetUserStatus (Some ''approved''),
        SetIsActualAdmin False, Select_admin_users ''u1'']"
    unfolding callback_resolved [OF su f] by (simp add: example_defs)
  moreover have "fst (initAuth ?B) =
       [Auth_getSession, Auth_getUser,
        SetSession (Some example_session), SetUser (Some example_user),
        Select_participants Email ''a@x.com'',
        SetParticipant (Some example_participant), SetUserStatus (Some ''approved''),
        SetIsActualAdmin False, Update_participants_auth_user_id ''u1'' ''p1'',
        Select_admin_users ''u1'', SetIsLoading False, ClearTimeout]"
  proof -
    have gs: "auth_getSession ?B = Resolves (Some example_session)"
      and gu: "auth_getUser ?B =
        Resolves \<lparr> data_user = Some example_user, error_of_getUser = None \<rparr>"
      by (simp_all add: example_backend_def)
    from initAuth_resolved [OF gs gu _ _ f] show ?thesis
      by (simp add: example_defs)
  qed
  ultimately show ?thesis using general by blast
qed

text \<open>
  Claim C5. \<open>fetchParticipant\<close> never throws, and returns null when a lookup it sent
  rejects. \<open>checkAdminUser\<close> never throws, and returns false when the admin-grant query
  rejects. Neither the bootstrap nor the listener callback throws, whatever the backend
  does; and when every awaited call settles (resolves or rejects), both return, and so do
  the lookup and the admin check.
\<close>

theorem no_exception_escapes_resolution:
  "snd (fetchParticipant b u) \<noteq> Thrown e
   \<and> ((c, v) \<in> set (lookups (fst (fetchParticipant b u))) \<longrightarrow>
        participants_single b c v = Rejects e' \<longrightarrow> snd (fetchParticipant b u) = Returned None)
   \<and> snd (checkAdminUser b uid) \<noteq> Thrown e
   \<and> (admin_users_single b uid = Rejects e' \<longrightarrow> snd (checkAdminUser b uid) = Returned False)
   \<and> snd (initAuth b) \<noteq> Thrown e
   \<and> snd (onAuthStateChange_callback b ev x) \<noteq> Thrown e
   \<and> (settles b \<longrightarrow>
        snd (initAuth b) = Returned () \<and> snd (onAuthStateChange_callback b ev x) = Returned ()
        \<and> (\<exists>d. snd (fetchParticipant b u) = Returned d)
        \<and> (\<exists>a. snd (checkAdminUser b uid) = Returned a))"
proof -
  have "snd (checkAdminUser b uid) \<noteq> Thrown e"
    by (cases "admin_users_single b uid") (simp_all add: checkAdminUser_cases)
  moreover have "admin_users_single b uid = Rejects e' \<longrightarrow> snd (checkAdminUser b uid) = Returned False"
    by (simp add: checkAdminUser_cases)
  moreover have "(c, v) \<in> set (lookups (fst (fetchParticipant b u))) \<longrightarrow>
        participants_single b c v = Rejects e' \<longrightarrow> snd (fetchParticipant b u) = Returned None"
    using spec_lookup_rejects [of c v b "spec_strategies u" e']
    by (simp add: fetchParticipant_refines)
  ultimately show ?thesis
    using fetchParticipant_not_thrown [of b u e] initAuth_not_thrown [of b e]
      callback_not_thrown [of b ev x e] initAuth_settles [of b] callback_settles [of b ev x]
      fetchParticipant_settles [of b u] checkAdminUser_settles [of b uid]
    by blast
qed

theorem no_exception_escapes_resolution_witness:
  "(Email, ''a@x.com'') \<in> set (lookups (fst (fetchParticipant
       (example_backend (Rejects (Error ''Failed to fetch'')) (Resolves None)
          (Rejects (Error ''Failed to fetch''))) example_user)))
   \<and> participants_single
        (example_backend (Rejects (Error ''Failed to fetch'')) (Resolves None)
          (Rejects (Error ''Failed to fetch''))) Email ''a@x.com'' =
       Rejects (Error ''Failed to fetch'')
   \<and> snd (fetchParticipant
        (example_backend (Rejects (Error ''Failed to fetch'')) (Resolves None)
          (Rejects (Error ''Failed to fetch''))) example_user) = Returned None
   \<and> admin_users_single
        (example_backend (Rejects (Error ''Failed to fetch'')) (Resolves None)
          (Rejects (Error ''Failed to fetch''))) ''u1'' = Rejects (Error ''Failed to fetch'')
   \<and> snd (checkAdminUser
        (example_backend (Rejects (Error ''Failed to fetch'')) (Resolves None)
          (Rejects (Error ''Failed to fetch''))) ''u1'') = Returned False
   \<and> settles (example_backend (Rejects (Error ''Failed to fetch'')) (Resolves None)
        (Rejects (Error ''Failed to fetch'')))
   \<and> snd (initAuth
        (example_backend (Rejects (Error ''Failed to fetch'')) (Resolves None)
          (Rejects (Error ''Failed to fetch'')))) = Returned ()
   \<and> snd (onAuthStateChange_callback
        (example_backend (Rejects (Error ''Failed to fetch'')) (Resolves None)
          (Rejects (Error ''Failed to fetch''))) ''SIGNED_IN'' (Some example_session)) =
       Returned ()"
proof -
  let ?B = "example_backend (Rejects (Error ''Failed to fetch'')) (Resolves None)
      (Rejects (Error ''Failed to fetch''))"
  have l: "(Email, ''a@x.com'') \<in> set (lookups (fst (fetchParticipant ?B example_user)))"
    by (simp add: fetchParticipant_def comp_defs example_defs)
  have p: "participants_single ?B Email ''a@x.com'' = Rejects (Error ''Failed to fetch'')"
    by (simp add: example_defs)
  have a: "admin_users_single ?B ''u1'' = Rejects (Error ''Failed to fetch'')"
    by (simp add: example_defs)
  have s: "settles ?B"
    by (simp add: settles_def example_defs split: column.splits)
  from no_exception_escapes_resolution
         [of ?B example_user _ Email "''a@x.com''" "Error ''Failed to fetch''" "''u1''"
             "''SIGNED_IN''" "Some example_session"]
       l p a s
  show ?thesis by blast
qed

text \<open>
  Claim C6. The remote sign-out call ends in a result \<open>r\<close>: no error on success, an
  error on failure, a network failure included. For every such outcome \<open>signOut\<close>
  returns and leaves user, session and participant unset, the admin flag false and the
  profile status null, from any state. The clear does not look at the result and is the
  function's own: it leads to the state a signed-out event leads to, without that event.
  Running it again changes nothing.
\<close>

theorem signOut_clears_when_remote_returns:
  assumes "auth_signOut b = Resolves r"
  shows "signOut b =
           ([Auth_signOut, SetUser None, SetSession None, SetParticipant None,
             SetIsActualAdmin False, SetUserStatus None], Returned ())
         \<and> user (exec (signOut b) s) = None
         \<and> session (exec (signOut b) s) = None
         \<and> participant (exec (signOut b) s) = None
         \<and> \<not> isActualAdmin (exec (signOut b) s)
         \<and> userStatus (exec (signOut b) s) = None
         \<and> exec (signOut b) (exec (signOut b) s) = exec (signOut b) s
         \<and> exec (signOut b) s = exec (onAuthStateChange_callback b ''SIGNED_OUT'' x) s"
  using assms
  by (simp add: signOut_def onAuthStateChange_callback_def comp_defs exec_def)

theorem signOut_clears_when_remote_returns_witness:
  "auth_signOut (signOut_backend (Resolves (Some (Error ''Failed to fetch'')))) =
     Resolves (Some (Error ''Failed to fetch''))
   \<and> auth_signOut (signOut_backend (Resolves None)) = Resolves None
   \<and> user signed_in_state = Some example_user
   \<and> session signed_in_state = Some example_session
   \<and> user (exec (signOut (signOut_backend (Resolves (Some (Error ''Failed to fetch'')))))
        signed_in_state) = None
   \<and> session (exec (signOut (signOut_backend (Resolves (Some (Error ''Failed to fetch'')))))
        signed_in_state) = None
   \<and> user (exec (signOut (signOut_backend (Resolves None))) signed_in_state) = None
   \<and> session (exec (signOut (signOut_backend (Resolves None))) signed_in_state) = None"
proof -
  have f: "auth_signOut (signOut_backend (Resolves (Some (Error ''Failed to fetch'')))) =
      Resolves (Some (Error ''Failed to fetch''))"
    and k: "auth_signOut (signOut_backend (Resolves None)) = Resolves None"
    by (simp_all add: signOut_backend_def)
  have i: "user signed_in_state = Some example_user"
      "session signed_in_state = Some example_session"
    by (simp_all add: signed_in_state_def initial_state_def)
  from f k i signOut_clears_when_remote_returns [OF f, of signed_in_state None]
    signOut_clears_when_remote_returns [OF k, of signed_in_state None]
  show ?thesis by blast
qed

text \<open>
  Claim C7. The mount effect arms the safety timer with a delay of 10000 and starts the
  bootstrap. While the bootstrap is suspended at an await, the timer is still armed and the
  loading flag is as it was; when the timer then elapses, its callback publishes
  \<^verbatim>\<open>loading = false\<close>. The bootstrap never throws, and it returns after the no-session
  exit, after the validation-failure exit, after a caught exception and whenever every
  call settles. Once it has returned, the timer is cleared, loading is false and the
  timer's elapsing changes nothing. The same holds when the timer elapses at any point
  \<open>pre\<close> of a bootstrap that completes later: at the end loading is false and the timer
  is cleared or has fired, and cannot fire again. At whatever point of the bootstrap the
  timer elapses, loading is false right after. No operation of the provider sets
  loading back: from a state with \<^verbatim>\<open>loading = false\<close> every operation and the timer
  lead to such a state.
\<close>

theorem safety_timer:
  assumes first: "\<not> authInitialized s"
    and mounted: "s1 = snd (useEffect_body b s)"
  shows "(snd (initAuth b) = Suspended \<longrightarrow>
            safetyTimeout s1 = Armed 10000 \<and> isLoading s1 = isLoading s
            \<and> \<not> isLoading (timer_elapses s1) \<and> safetyTimeout (timer_elapses s1) = Fired)
         \<and> (snd (initAuth b) = Returned () \<longrightarrow>
            safetyTimeout s1 = Cleared \<and> \<not> isLoading s1 \<and> timer_elapses s1 = s1)
         \<and> (snd (initAuth b) = Suspended \<or> snd (initAuth b) = Returned ())
         \<and> (auth_getSession b = Resolves None \<longrightarrow> snd (initAuth b) = Returned ())
         \<and> (auth_getSession b = Resolves (Some sess) \<longrightarrow> auth_getUser b = Resolves r \<longrightarrow>
              error_of_getUser r \<noteq> None \<or> data_user r = None \<longrightarrow>
              snd (initAuth b) = Returned ())
         \<and> (auth_getSession b = Rejects e \<longrightarrow> snd (initAuth b) = Returned ())
         \<and> (settles b \<longrightarrow> snd (initAuth b) = Returned ())
         \<and> (snd (initAuth b) = Returned () \<longrightarrow> fst (initAuth b) = pre @ post \<longrightarrow>
              (let s' = run post (timer_elapses
                          (run pre (run [SetTimeout 10000] (s\<lparr>authInitialized := True\<rparr>))))
               in \<not> isLoading s'
                  \<and> (safetyTimeout s' = Cleared \<or> safetyTimeout s' = Fired)
                  \<and> timer_elapses s' = s'))
         \<and> (fst (initAuth b) = pre @ post \<longrightarrow>
              \<not> isLoading (timer_elapses
                  (run pre (run [SetTimeout 10000] (s\<lparr>authInitialized := True\<rparr>)))))
         \<and> (\<not> isLoading z \<longrightarrow>
              \<not> isLoading (exec (initAuth b) z) \<and> \<not> isLoading (timer_elapses z)
              \<and> \<not> isLoading (exec (onAuthStateChange_callback b ev x) z)
              \<and> \<not> isLoading (exec (signOut b) z)
              \<and> \<not> isLoading (exec (refreshParticipant b z') z)
              \<and> \<not> isLoading (exec (setViewAsUser v) z)
              \<and> \<not> isLoading (run useEffect_cleanup z))"
proof -
  let ?s0 = "run [SetTimeout 10000] (s\<lparr>authInitialized := True\<rparr>)"
  have s1: "s1 = run [Subscribe] (run (fst (initAuth b)) ?s0)"
    using first mounted by (simp add: useEffect_body_def run_append)
  have armed: "safetyTimeout ?s0 = Armed 10000" and load0: "isLoading ?s0 = isLoading s"
    by simp_all
  have hung: "safetyTimeout s1 = Armed 10000 \<and> isLoading s1 = isLoading s
      \<and> \<not> isLoading (timer_elapses s1) \<and> safetyTimeout (timer_elapses s1) = Fired"
    if "snd (initAuth b) = Suspended"
  proof -
    from that obtain t where t: "initAuth b = (t, Suspended)"
        "\<forall>a \<in> set t. \<not> touches_loading_or_timer a"
      by (cases b rule: initAuth_shape) auto
    from untouched_run [OF t(2), of ?s0] t(1) s1 armed load0
    have "safetyTimeout s1 = Armed 10000" "isLoading s1 = isLoading s" by simp_all
    with timer_elapses_armed [of s1 10000] show ?thesis by simp
  qed
  have ended: "\<exists>t0. fst (initAuth b) = t0 @ [SetIsLoading False, ClearTimeout]
      \<and> (\<forall>a \<in> set t0. benign a)" if "snd (initAuth b) = Returned ()"
    using that by (cases b rule: initAuth_shape) auto
  have completed: "safetyTimeout s1 = Cleared \<and> \<not> isLoading s1 \<and> timer_elapses s1 = s1"
    if "snd (initAuth b) = Returned ()"
  proof -
    from ended [OF that] obtain t0 where t0:
        "fst (initAuth b) = t0 @ [SetIsLoading False, ClearTimeout]" "\<forall>a \<in> set t0. benign a"
      by blast
    from benign_run_armed [OF t0(2) armed]
    have "safetyTimeout (run [SetIsLoading False, ClearTimeout] (run t0 ?s0)) = Cleared"
      using completion_block [of "run t0 ?s0" 10000] by auto
    moreover have "\<not> isLoading (run [SetIsLoading False, ClearTimeout] (run t0 ?s0))"
      using completion_block [of "run t0 ?s0"] by blast
    ultimately have "safetyTimeout s1 = Cleared" "\<not> isLoading s1"
      using s1 t0(1) by (simp_all add: run_append)
    with timer_elapses_unarmed [of s1] show ?thesis by simp
  qed
  have total: "snd (initAuth b) = Suspended \<or> snd (initAuth b) = Returned ()"
    by (cases b rule: initAuth_shape) auto
  have exits: "auth_getSession b = Resolves None \<longrightarrow> snd (initAuth b) = Returned ()"
      "auth_getSession b = Resolves (Some sess) \<longrightarrow> auth_getUser b = Resolves r \<longrightarrow>
         error_of_getUser r \<noteq> None \<or> data_user r = None \<longrightarrow> snd (initAuth b) = Returned ()"
      "auth_getSession b = Rejects e \<longrightarrow> snd (initAuth b) = Returned ()"
      "settles b \<longrightarrow> snd (initAuth b) = Returned ()"
    using initAuth_early(2,3) [of b] initAuth_early(6) [of b sess r] initAuth_settles [of b]
    by auto
  have interleaved: "\<not> isLoading s' \<and> (safetyTimeout s' = Cleared \<or> safetyTimeout s' = Fired)
      \<and> timer_elapses s' = s'"
    if r: "snd (initAuth b) = Returned ()" and split: "fst (initAuth b) = pre @ post"
      and s': "s' = run post (timer_elapses (run pre ?s0))" for s'
  proof -
    from ended [OF r] obtain t0 where t0:
        "fst (initAuth b) = t0 @ [SetIsLoading False, ClearTimeout]" "\<forall>a \<in> set t0. benign a"
      by blast
    then have all: "\<forall>a \<in> set (fst (initAuth b)). benign a" by auto
    with split have pre: "\<forall>a \<in> set pre. benign a" and post: "\<forall>a \<in> set post. benign a"
      by auto
    from benign_run_armed [OF pre armed]
    show ?thesis
    proof
      assume a: "safetyTimeout (run pre ?s0) = Armed 10000"
      let ?m = "timer_elapses (run pre ?s0)"
      from timer_elapses_armed [OF a] have m: "\<not> isLoading ?m" "safetyTimeout ?m = Fired"
        by simp_all
      from benign_run_loading [OF post m(1)] benign_run_timer [OF post, of ?m] m(2) s'
      have "\<not> isLoading s'" "safetyTimeout s' = Fired" by simp_all
      with timer_elapses_unarmed [of s'] show ?thesis by simp
    next
      assume c: "safetyTimeout (run pre ?s0) = Cleared"
      with timer_elapses_unarmed [of "run pre ?s0"] s' split
      have "s' = run (fst (initAuth b)) ?s0" by (simp add: run_append)
      with t0(1) have e: "s' = run [SetIsLoading False, ClearTimeout] (run t0 ?s0)"
        by (simp add: run_append)
      from benign_run_armed [OF t0(2) armed] completion_block [of "run t0 ?s0" 10000] e
      have "\<not> isLoading s'" "safetyTimeout s' = Cleared" by auto
      with timer_elapses_unarmed [of s'] show ?thesis by simp
    qed
  qed
  have mono: "\<not> isLoading (exec (initAuth b) z) \<and> \<not> isLoading (timer_elapses z)
      \<and> \<not> isLoading (exec (onAuthStateChange_callback b ev x) z)
      \<and> \<not> isLoading (exec (signOut b) z)
      \<and> \<not> isLoading (exec (refreshParticipant b z') z)
      \<and> \<not> isLoading (exec (setViewAsUser v) z)
      \<and> \<not> isLoading (run useEffect_cleanup z)" if z: "\<not> isLoading z"
  proof -
    have "\<not> isLoading (run useEffect_cleanup z)"
      using z by (cases "safetyTimeout z") (simp_all add: useEffect_cleanup_def)
    moreover have "\<not> isLoading (exec (setViewAsUser v) z)"
      using z by (simp add: exec_def setViewAsUser_def emit_def)
    ultimately show ?thesis
      using z timer_elapses_not_loading [of z]
        benign_run_loading [of "fst (initAuth b)" z]
        benign_run_loading [of "fst (onAuthStateChange_callback b ev x)" z]
        benign_run_loading [of "fst (signOut b)" z]
        benign_run_loading [of "fst (refreshParticipant b z')" z]
        initAuth_benign [of _ b] callback_benign [of _ b ev x] signOut_benign [of _ b]
        refreshParticipant_benign [of _ b z']
      by (simp add: exec_def)
  qed
  have il: "snd (initAuth b) = Returned () \<longrightarrow> fst (initAuth b) = pre @ post \<longrightarrow>
      (let s' = run post (timer_elapses (run pre ?s0))
       in \<not> isLoading s' \<and> (safetyTimeout s' = Cleared \<or> safetyTimeout s' = Fired)
          \<and> timer_elapses s' = s')"
    unfolding Let_def using interleaved [OF _ _ refl] by blast
  from hung completed have hc:
      "snd (initAuth b) = Suspended \<longrightarrow>
         safetyTimeout s1 = Armed 10000 \<and> isLoading s1 = isLoading s
         \<and> \<not> isLoading (timer_elapses s1) \<and> safetyTimeout (timer_elapses s1) = Fired"
      "snd (initAuth b) = Returned () \<longrightarrow>
         safetyTimeout s1 = Cleared \<and> \<not> isLoading s1 \<and> timer_elapses s1 = s1"
    by blast+
  from mono have m: "\<not> isLoading z \<longrightarrow>
      \<not> isLoading (exec (initAuth b) z) \<and> \<not> isLoading (timer_elapses z)
      \<and> \<not> isLoading (exec (onAuthStateChange_callback b ev x) z)
      \<and> \<not> isLoading (exec (signOut b) z)
      \<and> \<not> isLoading (exec (refreshParticipant b z') z)
      \<and> \<not> isLoading (exec (setViewAsUser v) z)
      \<and> \<not> isLoading (run useEffect_cleanup z)"
    by blast
  have anytime: "fst (initAuth b) = pre @ post \<longrightarrow>
      \<not> isLoading (timer_elapses (run pre ?s0))"
    using timer_elapses_at_any_point [of b pre post "s\<lparr>authInitialized := True\<rparr>"] by blast
  show ?thesis
    by (intro conjI) (rule hc total exits il anytime m)+
qed

theorem safety_timer_witness:
  "\<not> authInitialized initial_state
   \<and> snd (initAuth (session_backend Never_settles Never_settles)) = Suspended
   \<and> safetyTimeout (snd (useEffect_body (session_backend Never_settles Never_settles)
        initial_state)) = Armed 10000
   \<and> isLoading (snd (useEffect_body (session_backend Never_settles Never_settles)
        initial_state))
   \<and> \<not> isLoading (timer_elapses (snd (useEffect_body
        (session_backend Never_settles Never_settles) initial_state)))
   \<and> auth_getSession (session_backend (Resolves None) Never_settles) = Resolves None
   \<and> snd (initAuth (session_backend (Resolves None) Never_settles)) = Returned ()
   \<and> safetyTimeout (snd (useEffect_body (session_backend (Resolves None) Never_settles)
        initial_state)) = Cleared
   \<and> \<not> isLoading (snd (useEffect_body (session_backend (Resolves None) Never_settles)
        initial_state))
   \<and> fst (initAuth (session_backend (Resolves None) Never_settles)) =
       [Auth_getSession] @ [SetIsLoading False, ClearTimeout, SetIsLoading False, ClearTimeout]
   \<and> \<not> isLoading (run [SetIsLoading False, ClearTimeout, SetIsLoading False, ClearTimeout]
        (timer_elapses (run [Auth_getSession]
           (run [SetTimeout 10000] (initial_state\<lparr>authInitialized := True\<rparr>)))))
   \<and> \<not> isLoading (timer_elapses (run [Auth_getSession]
        (run [SetTimeout 10000] (initial_state\<lparr>authInitialized := True\<rparr>))))
   \<and> snd (initAuth (session_backend (Rejects (Error ''Failed to fetch'')) Never_settles)) =
       Returned ()
   \<and> snd (initAuth (session_backend (Resolves (Some example_session))
        (Resolves \<lparr> data_user = None, error_of_getUser = Some (Error ''invalid JWT'') \<rparr>))) =
       Returned ()
   \<and> settles (example_backend (Resolves None) (Resolves None) (Resolves None))
   \<and> snd (initAuth (example_backend (Resolves None) (Resolves None) (Resolves None))) =
       Returned ()
   \<and> \<not> isLoading (run [SetIsLoading False] initial_state)
   \<and> \<not> isLoading (exec (initAuth (session_backend Never_settles Never_settles))
        (run [SetIsLoading False] initial_state))"
proof -
  let ?H = "session_backend Never_settles Never_settles"
  let ?N = "session_backend (Resolves None) Never_settles"
  let ?R = "session_backend (Rejects (Error ''Failed to fetch'')) Never_settles"
  let ?V = "session_backend (Resolves (Some example_session))
      (Resolves \<lparr> data_user = None, error_of_getUser = Some (Error ''invalid JWT'') \<rparr>)"
  let ?B = "example_backend (Resolves None) (Resolves None) (Resolves None)"
  have i: "\<not> authInitialized initial_state" "isLoading initial_state"
    by (simp_all add: initial_state_def)
  have h: "snd (initAuth ?H) = Suspended"
    by (simp add: initAuth_early(1) session_backend_def)
  have n: "auth_getSession ?N = Resolves None"
    by (simp add: session_backend_def)
  have r: "auth_getSession ?R = Rejects (Error ''Failed to fetch'')"
    by (simp add: session_backend_def)
  have v: "auth_getSession ?V = Resolves (Some example_session)"
      "auth_getUser ?V =
         Resolves \<lparr> data_user = None, error_of_getUser = Some (Error ''invalid JWT'') \<rparr>"
      "error_of_getUser \<lparr> data_user = None, error_of_getUser = Some (Error ''invalid JWT'') \<rparr>
         \<noteq> None
       \<or> data_user \<lparr> data_user = None, error_of_getUser = Some (Error ''invalid JWT'') \<rparr> = None"
    by (simp_all add: session_backend_def)
  have t: "fst (initAuth ?N) =
      [Auth_getSession] @ [SetIsLoading False, ClearTimeout, SetIsLoading False, ClearTimeout]"
    by (simp add: initAuth_early(3) [OF n])
  have s: "settles ?B"
    by (simp add: settles_def example_defs split: column.splits)
  have z: "\<not> isLoading (run [SetIsLoading False] initial_state)"
    by simp
  note H = safety_timer [OF i(1) refl, of ?H example_session _ _ "[]" "[]"
      "run [SetIsLoading False] initial_state" "''SIGNED_IN''" None initial_state True]
  note N = safety_timer [OF i(1) refl, of ?N example_session _ _ "[Auth_getSession]"
      "[SetIsLoading False, ClearTimeout, SetIsLoading False, ClearTimeout]"
      "run [SetIsLoading False] initial_state" "''SIGNED_IN''" None initial_state True]
  note R = safety_timer [OF i(1) refl, of ?R example_session _ "Error ''Failed to fetch''"]
  note V = safety_timer [OF i(1) refl, of ?V example_session
      "\<lparr> data_user = None, error_of_getUser = Some (Error ''invalid JWT'') \<rparr>"]
  note B = safety_timer [OF i(1) refl, of ?B]
  from H h i have 1: "safetyTimeout (snd (useEffect_body ?H initial_state)) = Armed 10000"
      "isLoading (snd (useEffect_body ?H initial_state))"
      "\<not> isLoading (timer_elapses (snd (useEffect_body ?H initial_state)))"
    by simp_all
  from H z have 2: "\<not> isLoading (exec (initAuth ?H) (run [SetIsLoading False] initial_state))"
    by blast
  from N n have 3: "snd (initAuth ?N) = Returned ()" by blast
  with N have 4: "safetyTimeout (snd (useEffect_body ?N initial_state)) = Cleared"
      "\<not> isLoading (snd (useEffect_body ?N initial_state))"
    by blast+
  from N 3 t have 5: "\<not> isLoading
      (run [SetIsLoading False, ClearTimeout, SetIsLoading False, ClearTimeout]
        (timer_elapses (run [Auth_getSession]
           (run [SetTimeout 10000] (initial_state\<lparr>authInitialized := True\<rparr>)))))"
    unfolding Let_def by blast
  from N t have 9: "\<not> isLoading (timer_elapses (run [Auth_getSession]
        (run [SetTimeout 10000] (initial_state\<lparr>authInitialized := True\<rparr>))))"
    by blast
  from R r have 6: "snd (initAuth ?R) = Returned ()" by blast
  from V v have 7: "snd (initAuth ?V) = Returned ()" by blast
  from B s have 8: "snd (initAuth ?B) = Returned ()" by blast
  from i h n t s z 1 2 3 4 5 6 7 8 9 show ?thesis by blast
qed

text \<open>
  Claim C8 at a failing input. On a signed-out event the callback performs the five
  clearing setters and returns, without any request. On a signed-in event for a user
  whose email matches a participant with no stored link, the callback publishes the
  session and the user, runs the lookup, sets participant, status and admin flag, checks
  the admin grant and returns: between the setters and the admin check it does not send
  the link repair. The bootstrap's resolution on the same backend is the same sequence
  with the repair in that place, so the listener's run is not the full resolution.
\<close>

theorem sign_in_event_resolution_lacks_link_repair:
  "onAuthStateChange_callback
     (example_backend (Resolves (Some example_participant)) (Resolves None) (Resolves None))
     ''SIGNED_OUT'' None =
     ([SetSession None, SetUser None, SetParticipant None, SetIsActualAdmin False,
       SetUserStatus None], Returned ())
   \<and> onAuthStateChange_callback
       (example_backend (Resolves (Some example_participant)) (Resolves None) (Resolves None))
       ''SIGNED_IN'' (Some example_session) =
     ([SetSession (Some example_session), SetUser (Some example_user)] @
      [Select_participants Email ''a@x.com'',
       SetParticipant (Some example_participant), SetUserStatus (Some ''approved''),
       SetIsActualAdmin False] @
      [Select_admin_users ''u1''], Returned ())
   \<and> initAuth
       (example_backend (Resolves (Some example_participant)) (Resolves None) (Resolves None)) =
     ([Auth_getSession, Auth_getUser,
       SetSession (Some example_session), SetUser (Some example_user)] @
      [Select_participants Email ''a@x.com'',
       SetParticipant (Some example_participant), SetUserStatus (Some ''approved''),
       SetIsActualAdmin False] @
      [Update_participants_auth_user_id ''u1'' ''p1''] @
      [Select_admin_users ''u1''] @
      [SetIsLoading False, ClearTimeout], Returned ())
   \<and> session (exec (onAuthStateChange_callback
        (example_backend (Resolves (Some example_participant)) (Resolves None) (Resolves None))
        ''SIGNED_IN'' (Some example_session)) initial_state) = Some example_session
   \<and> user (exec (onAuthStateChange_callback
        (example_backend (Resolves (Some example_participant)) (Resolves None) (Resolves None))
        ''SIGNED_IN'' (Some example_session)) initial_state) = Some example_user"
proof -
  let ?B = "example_backend (Resolves (Some example_participant)) (Resolves None) (Resolves None)"
  have f: "fetchParticipant ?B example_user =
      ([Select_participants Email ''a@x.com''], Returned (Some example_participant))"
    by (simp add: fetchParticipant_def comp_defs example_defs)
  have su: "session_user (Some example_session) = Some example_user"
    by (simp add: example_session_def)
  have gs: "auth_getSession ?B = Resolves (Some example_session)"
    and gu: "auth_getUser ?B =
      Resolves \<lparr> data_user = Some example_user, error_of_getUser = None \<rparr>"
    by (simp_all add: example_backend_def)
  have out: "onAuthStateChange_callback ?B ''SIGNED_OUT'' None =
     ([SetSession None, SetUser None, SetParticipant None, SetIsActualAdmin False,
       SetUserStatus None], Returned ())"
    by (rule callback_signed_out)
  have cb: "onAuthStateChange_callback ?B ''SIGNED_IN'' (Some example_session) =
     ([SetSession (Some example_session), SetUser (Some example_user)] @
      [Select_participants Email ''a@x.com'',
       SetParticipant (Some example_participant), SetUserStatus (Some ''approved''),
       SetIsActualAdmin False] @
      [Select_admin_users ''u1''], Returned ())"
    unfolding callback_resolved [OF su f] by (simp add: example_defs)
  have boot: "initAuth ?B =
     ([Auth_getSession, Auth_getUser,
       SetSession (Some example_session), SetUser (Some example_user)] @
      [Select_participants Email ''a@x.com'',
       SetParticipant (Some example_participant), SetUserStatus (Some ''approved''),
       SetIsActualAdmin False] @
      [Update_participants_auth_user_id ''u1'' ''p1''] @
      [Select_admin_users ''u1''] @
      [SetIsLoading False, ClearTimeout], Returned ())"
    using initAuth_resolved [OF gs gu _ _ f] by (simp add: example_defs)
  have kept: "session (exec (onAuthStateChange_callback ?B ''SIGNED_IN''
        (Some example_session)) initial_state) = Some example_session"
      "user (exec (onAuthStateChange_callback ?B ''SIGNED_IN''
        (Some example_session)) initial_state) = Some example_user"
    unfolding cb by (simp_all add: exec_def)
  from out cb boot kept show ?thesis by blast
qed

text \<open>
  Claim C9, as amended. In an environment where one of the two variables is unset or
  white space only, \<open>createServerSupabaseClient\<close> never returns a client, whatever the
  library's constructor and the cookie call do. A failure of the cookie call, which is
  awaited first, is thrown as it is. Once the cookie store is available, the function
  throws the error that names \<^verbatim>\<open>NEXT_PUBLIC_SUPABASE_URL\<close> when that variable is unset
  or white space only, and the error that names \<^verbatim>\<open>NEXT_PUBLIC_SUPABASE_ANON_KEY\<close> when
  the URL is present and the key is unset or white space only; the message starts with
  \<^verbatim>\<open>Missing env: \<close> followed by the name. With both present, the two values and the
  cookie store are handed unchanged to the library's constructor, and the function
  returns the client it yields or throws the error it throws.
\<close>

theorem createServerSupabaseClient_fails_fast:
  "(unset_or_blank env ''NEXT_PUBLIC_SUPABASE_URL''
      \<or> unset_or_blank env ''NEXT_PUBLIC_SUPABASE_ANON_KEY'' \<longrightarrow>
      createServerSupabaseClient lib cookies env \<noteq> Returned c)
   \<and> (cookies = Rejects e \<longrightarrow> createServerSupabaseClient lib cookies env = Thrown e)
   \<and> (cookies = Resolves store \<longrightarrow> unset_or_blank env ''NEXT_PUBLIC_SUPABASE_URL'' \<longrightarrow>
        createServerSupabaseClient lib cookies env =
          Thrown (Error (missing_env_message ''NEXT_PUBLIC_SUPABASE_URL'')))
   \<and> (cookies = Resolves store \<longrightarrow> \<not> unset_or_blank env ''NEXT_PUBLIC_SUPABASE_URL'' \<longrightarrow>
        unset_or_blank env ''NEXT_PUBLIC_SUPABASE_ANON_KEY'' \<longrightarrow>
        createServerSupabaseClient lib cookies env =
          Thrown (Error (missing_env_message ''NEXT_PUBLIC_SUPABASE_ANON_KEY'')))
   \<and> (cookies = Resolves store \<longrightarrow> \<not> unset_or_blank env ''NEXT_PUBLIC_SUPABASE_URL'' \<longrightarrow>
        \<not> unset_or_blank env ''NEXT_PUBLIC_SUPABASE_ANON_KEY'' \<longrightarrow>
        (\<exists>url anonKey. env ''NEXT_PUBLIC_SUPABASE_URL'' = Some url
           \<and> env ''NEXT_PUBLIC_SUPABASE_ANON_KEY'' = Some anonKey
           \<and> createServerSupabaseClient lib cookies env =
               (case lib url anonKey store of Inl e' \<Rightarrow> Thrown e' | Inr c' \<Rightarrow> Returned c')))
   \<and> prefix (''Missing env: '' @ name) (missing_env_message name)"
  by (cases cookies)
     (auto simp: createServerSupabaseClient_def getRequiredEnv_cases unset_or_blank_def
        missing_env_message_def split: option.splits sum.splits)

theorem createServerSupabaseClient_fails_fast_witness:
  "unset_or_blank (example_env (Some [0x20, 0x09]) (Some [0x6B])) ''NEXT_PUBLIC_SUPABASE_URL''
   \<and> createServerSupabaseClient example_createServerClient (Resolves [])
        (example_env (Some [0x20, 0x09]) (Some [0x6B])) =
       Thrown (Error (missing_env_message ''NEXT_PUBLIC_SUPABASE_URL''))
   \<and> \<not> unset_or_blank (example_env (Some example_url) None) ''NEXT_PUBLIC_SUPABASE_URL''
   \<and> unset_or_blank (example_env (Some example_url) None) ''NEXT_PUBLIC_SUPABASE_ANON_KEY''
   \<and> createServerSupabaseClient example_createServerClient (Resolves [])
        (example_env (Some example_url) None) =
       Thrown (Error (missing_env_message ''NEXT_PUBLIC_SUPABASE_ANON_KEY''))
   \<and> \<not> unset_or_blank (example_env (Some example_url) (Some [0x6B]))
         ''NEXT_PUBLIC_SUPABASE_ANON_KEY''
   \<and> createServerSupabaseClient example_createServerClient (Resolves [])
        (example_env (Some example_url) (Some [0x6B])) =
       Returned \<lparr> supabaseUrl = example_url, supabaseKey = [0x6B], cookieStore = [] \<rparr>
   \<and> createServerSupabaseClient example_createServerClient
        (Rejects (Error ''cookies was called outside a request scope''))
        (example_env None None) =
       Thrown (Error ''cookies was called outside a request scope'')"
proof -
  let ?E1 = "example_env (Some [0x20, 0x09]) (Some [0x6B])"
  let ?E2 = "example_env (Some example_url) None"
  let ?E3 = "example_env (Some example_url) (Some [0x6B])"
  have a: "unset_or_blank ?E1 ''NEXT_PUBLIC_SUPABASE_URL''"
    by (simp add: unset_or_blank_def example_env_def is_white_space_def)
  have b: "\<not> unset_or_blank ?E2 ''NEXT_PUBLIC_SUPABASE_URL''"
      "unset_or_blank ?E2 ''NEXT_PUBLIC_SUPABASE_ANON_KEY''"
    by (simp_all add: unset_or_blank_def example_env_def is_white_space_def example_url_def)
  have c: "\<not> unset_or_blank ?E3 ''NEXT_PUBLIC_SUPABASE_URL''"
      "\<not> unset_or_blank ?E3 ''NEXT_PUBLIC_SUPABASE_ANON_KEY''"
    by (simp_all add: unset_or_blank_def example_env_def is_white_space_def example_url_def)
  have e: "?E3 ''NEXT_PUBLIC_SUPABASE_URL'' = Some example_url"
      "?E3 ''NEXT_PUBLIC_SUPABASE_ANON_KEY'' = Some [0x6B]"
    by (simp_all add: example_env_def)
  have l: "example_createServerClient example_url [0x6B] [] =
      Inr \<lparr> supabaseUrl = example_url, supabaseKey = [0x6B], cookieStore = [] \<rparr>"
    by (simp add: example_createServerClient_def example_url_def)
  from createServerSupabaseClient_fails_fast
      [of ?E1 example_createServerClient "Resolves []" _ _ "[]"] a
  have 1: "createServerSupabaseClient example_createServerClient (Resolves []) ?E1 =
       Thrown (Error (missing_env_message ''NEXT_PUBLIC_SUPABASE_URL''))"
    by blast
  from createServerSupabaseClient_fails_fast
      [of ?E2 example_createServerClient "Resolves []" _ _ "[]"] b
  have 2: "createServerSupabaseClient example_createServerClient (Resolves []) ?E2 =
       Thrown (Error (missing_env_message ''NEXT_PUBLIC_SUPABASE_ANON_KEY''))"
    by blast
  from createServerSupabaseClient_fails_fast
      [of ?E3 example_createServerClient "Resolves []" _ _ "[]"] c e l
  have 3: "createServerSupabaseClient example_createServerClient (Resolves []) ?E3 =
       Returned \<lparr> supabaseUrl = example_url, supabaseKey = [0x6B], cookieStore = [] \<rparr>"
    by auto
  from createServerSupabaseClient_fails_fast
      [of "example_env None None" example_createServerClient
          "Rejects (Error ''cookies was called outside a request scope'')" _
          "Error ''cookies was called outside a request scope''"]
  have 4: "createServerSupabaseClient example_createServerClient
        (Rejects (Error ''cookies was called outside a request scope''))
        (example_env None None) =
       Thrown (Error ''cookies was called outside a request scope'')"
    by blast
  from a b c 1 2 3 4 show ?thesis by blast
qed

text \<open>
  Claim C9 as stated promises a client whenever both variables are present. With the URL
  \<^verbatim>\<open>h\<close> and the key \<^verbatim>\<open>k\<close> both are present and not blank, the constructor of the library
  rejects the URL, and the function throws that error instead of returning a client.
\<close>

theorem createServerSupabaseClient_present_but_invalid:
  "\<not> unset_or_blank (example_env (Some [0x68]) (Some [0x6B])) ''NEXT_PUBLIC_SUPABASE_URL''
   \<and> \<not> unset_or_blank (example_env (Some [0x68]) (Some [0x6B]))
         ''NEXT_PUBLIC_SUPABASE_ANON_KEY''
   \<and> createServerSupabaseClient example_createServerClient (Resolves [])
        (example_env (Some [0x68]) (Some [0x6B])) =
       Thrown (Error ''Invalid supabaseUrl: Must be a valid HTTP or HTTPS URL.'')"
  by (simp add: createServerSupabaseClient_def getRequiredEnv_def trim_def unset_or_blank_def
        example_env_def is_white_space_def example_createServerClient_def)

text \<open>
  Claim C10. With a user set, when the lookup of \<open>refreshParticipant\<close> yields no
  participant (no strategy matches, a lookup throws, or a lookup does not settle), the
  actions of \<open>refreshParticipant\<close> are those of the lookup and leave any state exactly
  as it was. In every case \<open>refreshParticipant\<close> sends no admin-grant query, never sets
  the status to \<^verbatim>\<open>no_profile\<close> and never clears the participant; and it changes
  \<^verbatim>\<open>isActualAdmin\<close> only when a participant was found.
\<close>

theorem refreshParticipant_frame:
  "(user s = Some u \<longrightarrow> (\<forall>p. snd (fetchParticipant b u) \<noteq> Returned (Some p)) \<longrightarrow>
      fst (refreshParticipant b s) = fst (fetchParticipant b u)
      \<and> run (fst (refreshParticipant b s)) s' = s')
   \<and> (user s = None \<longrightarrow> refreshParticipant b s = ([], Returned ()))
   \<and> Select_admin_users uid \<notin> set (fst (refreshParticipant b s))
   \<and> SetUserStatus (Some ''no_profile'') \<notin> set (fst (refreshParticipant b s))
   \<and> SetParticipant None \<notin> set (fst (refreshParticipant b s))
   \<and> (isActualAdmin (run (fst (refreshParticipant b s)) s') \<noteq> isActualAdmin s' \<longrightarrow>
        (\<exists>u p. user s = Some u \<and> snd (fetchParticipant b u) = Returned (Some p)))"
proof -
  have shape: "a \<in> set (fst (refreshParticipant b s)) \<Longrightarrow>
      (\<exists>c v. a = Select_participants c v) \<or> (\<exists>m e. a = Console_error m e)
      \<or> (\<exists>p. a = SetParticipant (Some p)) \<or> a = SetUserStatus (Some ''approved'')
      \<or> (\<exists>x. a = SetIsActualAdmin x)" for a
  proof (cases "user s")
    case None
    assume "a \<in> set (fst (refreshParticipant b s))"
    with None show ?thesis by (simp add: refreshParticipant_def comp_defs)
  next
    case (Some w)
    assume a: "a \<in> set (fst (refreshParticipant b s))"
    obtain t r where f: "fetchParticipant b w = (t, r)" by (cases "fetchParticipant b w")
    from fetchParticipant_actions [of _ b w] f
    have t: "\<And>x. x \<in> set t \<Longrightarrow> (\<exists>c v. x = Select_participants c v) \<or> (\<exists>m e. x = Console_error m e)"
      by simp
    from a Some f show ?thesis
      by (auto simp: refreshParticipant_def comp_defs split: outcome.splits option.splits dest: t)
  qed
  have unchanged: "run (fst (refreshParticipant b s)) s' = s'"
      and same: "fst (refreshParticipant b s) = fst (fetchParticipant b u)"
    if "user s = Some u" "\<forall>p. snd (fetchParticipant b u) \<noteq> Returned (Some p)" for u
  proof -
    obtain t r where f: "fetchParticipant b u = (t, r)" by (cases "fetchParticipant b u")
    with that show "fst (refreshParticipant b s) = fst (fetchParticipant b u)"
      by (auto simp: refreshParticipant_def comp_defs split: outcome.splits option.splits)
    then show "run (fst (refreshParticipant b s)) s' = s'"
      by (simp add: fetchParticipant_passive)
  qed
  have changed: "\<exists>u p. user s = Some u \<and> snd (fetchParticipant b u) = Returned (Some p)"
    if "isActualAdmin (run (fst (refreshParticipant b s)) s') \<noteq> isActualAdmin s'"
  proof (cases "user s")
    case None
    with that show ?thesis by (simp add: refreshParticipant_def comp_defs)
  next
    case (Some w)
    show ?thesis
    proof (rule ccontr)
      assume "\<not> ?thesis"
      with Some have "\<forall>p. snd (fetchParticipant b w) \<noteq> Returned (Some p)" by simp
      from unchanged [OF Some this] that show False by simp
    qed
  qed
  have none: "user s = None \<longrightarrow> refreshParticipant b s = ([], Returned ())"
    by (simp add: refreshParticipant_def comp_defs)
  from shape [of "Select_admin_users uid"] shape [of "SetUserStatus (Some ''no_profile'')"]
    shape [of "SetParticipant None"] unchanged same changed none
  show ?thesis by auto
qed

theorem refreshParticipant_frame_witness:
  "user admin_state = Some example_user
   \<and> snd (fetchParticipant
          (example_backend (Rejects (Error ''Failed to fetch'')) (Resolves None) (Resolves None))
          example_user) = Returned None
   \<and> run (fst (refreshParticipant
          (example_backend (Rejects (Error ''Failed to fetch'')) (Resolves None) (Resolves None))
          admin_state)) admin_state = admin_state
   \<and> isActualAdmin admin_state
   \<and> \<not> isActualAdmin (run (fst (refreshParticipant
          (example_backend (Resolves (Some example_participant)) (Resolves None) (Resolves None))
          admin_state)) admin_state)
   \<and> snd (fetchParticipant
          (example_backend (Resolves (Some example_participant)) (Resolves None) (Resolves None))
          example_user) = Returned (Some example_participant)
   \<and> user initial_state = None
   \<and> refreshParticipant
        (example_backend (Resolves (Some example_participant)) (Resolves None) (Resolves None))
        initial_state = ([], Returned ())"
proof -
  let ?B1 = "example_backend (Rejects (Error ''Failed to fetch'')) (Resolves None) (Resolves None)"
  let ?B2 = "example_backend (Resolves (Some example_participant)) (Resolves None) (Resolves None)"
  have u: "user admin_state = Some example_user"
    by (simp add: admin_state_def signed_in_state_def initial_state_def)
  have a: "isActualAdmin admin_state"
    by (simp add: admin_state_def signed_in_state_def initial_state_def)
  have i: "user initial_state = None"
    by (simp add: initial_state_def)
  have f1: "snd (fetchParticipant ?B1 example_user) = Returned None"
    by (simp add: fetchParticipant_def comp_defs example_defs)
  then have n: "\<forall>p. snd (fetchParticipant ?B1 example_user) \<noteq> Returned (Some p)"
    by simp
  have f2: "snd (fetchParticipant ?B2 example_user) = Returned (Some example_participant)"
    by (simp add: fetchParticipant_def comp_defs example_defs)
  have r2: "\<not> isActualAdmin (run (fst (refreshParticipant ?B2 admin_state)) admin_state)"
    by (simp add: refreshParticipant_def fetchParticipant_def comp_defs example_defs
          admin_state_def signed_in_state_def initial_state_def)
  from refreshParticipant_frame [of admin_state example_user ?B1 admin_state]
       refreshParticipant_frame [of initial_state example_user ?B2 admin_state]
       u a i n f1 f2 r2
  show ?thesis by blast
qed

end
